theory Spec2Isabelle
  imports Complex_Main "HOL-Library.Multiset"
begin

section \<open>Numbers, errors and rectangles\<close>

text \<open>
  The program is Python. Its floats are modelled as the reals (rounding, infinities and
  NaN are outside the model), its unbounded integers as \<open>int\<close>. Every exception
  the modelled code can raise is a value of \<open>error\<close>.
\<close>

datatype error =
    AlgorithmExecutionException string
  | IndexError
  | ValueError
  | ZeroDivisionError
  | TypeError
  | AttributeError
  | DatabaseError

text \<open>
  \<open>pow(x, y)\<close> and \<open>x ** y\<close> on floats. A negative base with a non-integral
  exponent gives a complex number in Python; every use in this program compares or
  formats the result next, which a complex number does not support, so that case is the
  error \<open>TypeError\<close> here.
\<close>

definition float_pow :: "real \<Rightarrow> real \<Rightarrow> error + real" where
  "float_pow x y =
     (if 0 < x then Inr (x powr y)
      else if x = 0 then
        (if y < 0 then Inl ZeroDivisionError else Inr (if y = 0 then 1 else 0))
      else if y = of_int \<lfloor>y\<rfloor> then
        Inr (if 0 \<le> y then x ^ nat \<lfloor>y\<rfloor> else 1 / x ^ nat \<lfloor>- y\<rfloor>)
      else Inl TypeError)"

text \<open>\<open>pow(1 / k, gamma)\<close> for an integer \<open>k\<close>: the division raises when \<open>k = 0\<close>.\<close>

definition inverse_pow :: "int \<Rightarrow> real \<Rightarrow> error + real" where
  "inverse_pow k g = (if k = 0 then Inl ZeroDivisionError else float_pow (1 / of_int k) g)"

text \<open>\<open>math.sqrt\<close> raises \<open>ValueError\<close> on a negative argument.\<close>

definition math_sqrt :: "real \<Rightarrow> error + real" where
  "math_sqrt x = (if x < 0 then Inl ValueError else Inr (sqrt x))"

text \<open>\<open>str(n)\<close> for an integer, as the f-strings of the engine use it.\<close>

definition digit_char :: "nat \<Rightarrow> char" where
  "digit_char d = ''0123456789'' ! d"

function str_nat :: "nat \<Rightarrow> string" where
  "str_nat n = (if n < 10 then [digit_char n] else str_nat (n div 10) @ [digit_char (n mod 10)])"
  by pat_completeness auto
termination
  by (relation "measure id") auto

declare str_nat.simps [simp del]

definition str_int :: "int \<Rightarrow> string" where
  "str_int i = (if i < 0 then CHR ''-'' # str_nat (nat (- i)) else str_nat (nat i))"

text \<open>Class \<open>Detail\<close> (detail/detail.py); \<open>__eq__\<close> compares the four fields.\<close>

record detail =
  bottom_left :: "real \<times> real"
  top_right :: "real \<times> real"
  name :: string
  detail_type :: string

definition width :: "detail \<Rightarrow> real" where
  "width d = fst (top_right d) - fst (bottom_left d)"

definition height :: "detail \<Rightarrow> real" where
  "height d = snd (top_right d) - snd (bottom_left d)"

definition Detail :: "real \<times> real \<Rightarrow> real \<times> real \<Rightarrow> string \<Rightarrow> string \<Rightarrow> detail" where
  "Detail bl tr n t = \<lparr>bottom_left = bl, top_right = tr, name = n, detail_type = t\<rparr>"

section \<open>Detail generators (detail/detail\_generator.py)\<close>

record harmonic_square =
  sq_n0 :: int
  sq_denominator :: int

definition HarmonicSquareDetailGenerator :: "int \<Rightarrow> harmonic_square" where
  "HarmonicSquareDetailGenerator n = \<lparr>sq_n0 = n, sq_denominator = n\<rparr>"

definition square_next :: "harmonic_square \<Rightarrow> error + ((real \<times> real) \<times> harmonic_square)" where
  "square_next g =
     (let d = sq_denominator g in
      if d = 0 then Inl ZeroDivisionError
      else Inr ((1 / of_int d, 1 / of_int d), g\<lparr>sq_denominator := d + 1\<rparr>))"

definition square_get_base_size :: "harmonic_square \<Rightarrow> error + (real \<times> real)" where
  "square_get_base_size g =
     (case math_sqrt (foldl (\<lambda>b i. b - (1 / of_int i) ^ 2) (pi ^ 2 / 6) [1 .. sq_n0 g - 1]) of
        Inl e \<Rightarrow> Inl e
      | Inr s \<Rightarrow> Inr (s, s))"

record harmonic_rectangle =
  re_n0 :: int
  re_denominator :: int
  is_width_smaller :: bool

definition HarmonicRectangleDetailGenerator :: "int \<Rightarrow> bool \<Rightarrow> harmonic_rectangle" where
  "HarmonicRectangleDetailGenerator n b =
     \<lparr>re_n0 = n, re_denominator = n, is_width_smaller = b\<rparr>"

definition rectangle_next ::
  "harmonic_rectangle \<Rightarrow> error + ((real \<times> real) \<times> harmonic_rectangle)" where
  "rectangle_next g =
     (let d = re_denominator g in
      if d = 0 \<or> d + 1 = 0 then Inl ZeroDivisionError
      else if is_width_smaller g then
        Inr ((1 / of_int (d + 1), 1 / of_int d), g\<lparr>re_denominator := d + 1\<rparr>)
      else
        Inr ((1 / of_int d, 1 / of_int (d + 1)), g\<lparr>re_denominator := d + 1\<rparr>))"

definition rectangle_get_base_size :: "harmonic_rectangle \<Rightarrow> error + (real \<times> real)" where
  "rectangle_get_base_size g =
     (if re_n0 g = 0 then Inl ZeroDivisionError
      else case math_sqrt (1 / of_int (re_n0 g)) of
        Inl e \<Rightarrow> Inl e
      | Inr s \<Rightarrow> Inr (s, s))"

text \<open>The two generator classes behind the interface \<open>DetailGenerator\<close>.\<close>

datatype detail_generator =
    Square harmonic_square
  | Rectangle harmonic_rectangle

fun generator_next :: "detail_generator \<Rightarrow> error + ((real \<times> real) \<times> detail_generator)" where
  "generator_next (Square g) =
     (case square_next g of Inl e \<Rightarrow> Inl e | Inr (d, g') \<Rightarrow> Inr (d, Square g'))"
| "generator_next (Rectangle g) =
     (case rectangle_next g of Inl e \<Rightarrow> Inl e | Inr (d, g') \<Rightarrow> Inr (d, Rectangle g'))"

fun get_base_size :: "detail_generator \<Rightarrow> error + (real \<times> real)" where
  "get_base_size (Square g) = square_get_base_size g"
| "get_base_size (Rectangle g) = rectangle_get_base_size g"

text \<open>
  The generator after \<open>k\<close> calls of \<open>next()\<close> that returned, and the value the
  \<open>k\<close>-th call returns (\<open>k \<ge> 1\<close>).
\<close>

fun after_calls :: "nat \<Rightarrow> detail_generator \<Rightarrow> error + detail_generator" where
  "after_calls 0 g = Inr g"
| "after_calls (Suc k) g =
     (case generator_next g of Inl e \<Rightarrow> Inl e | Inr (_, g') \<Rightarrow> after_calls k g')"

definition kth_call :: "nat \<Rightarrow> detail_generator \<Rightarrow> error + (real \<times> real)" where
  "kth_call k g =
     (case after_calls (k - 1) g of
        Inl e \<Rightarrow> Inl e
      | Inr g' \<Rightarrow> (case generator_next g' of Inl e \<Rightarrow> Inl e | Inr (d, _) \<Rightarrow> Inr d))"

section \<open>Box storage (storage/*.py)\<close>

definition min_size :: "detail \<Rightarrow> real" where
  "min_size d = min (width d) (height d)"

text \<open>\<open>InMemoryBoxStorage._detail_comparator\<close>.\<close>

definition detail_comparator :: "detail \<Rightarrow> detail \<Rightarrow> real" where
  "detail_comparator detail1 detail2 =
     min (width detail2) (height detail2) - min (width detail1) (height detail1)"

text \<open>
  \<open>SortedSet(key=cmp_to_key(_detail_comparator))\<close> of the library sortedcontainers: a
  hash set of the members beside a list kept in key order. \<open>add\<close> ignores a value that
  is a member already and otherwise inserts it at \<open>bisect_right\<close> of its key, that is,
  before the first member that the comparator puts after it. The model is the list;
  \<open>s[0]\<close> and \<open>s.pop(0)\<close> are its head.
\<close>

fun sorted_insert :: "detail \<Rightarrow> detail list \<Rightarrow> detail list" where
  "sorted_insert d [] = [d]"
| "sorted_insert d (e # es) =
     (if detail_comparator d e < 0 then d # e # es else e # sorted_insert d es)"

definition sorted_set_add :: "detail \<Rightarrow> detail list \<Rightarrow> detail list" where
  "sorted_set_add d s = (if d \<in> set s then s else sorted_insert d s)"

definition first_or_none :: "detail list \<Rightarrow> detail option" where
  "first_or_none s = (case s of [] \<Rightarrow> None | x # _ \<Rightarrow> Some x)"

subsection \<open>InMemoryBoxStorage\<close>

definition in_memory_add_box :: "detail \<Rightarrow> detail list \<Rightarrow> detail list" where
  "in_memory_add_box d boxes = sorted_set_add d boxes"

definition in_memory_get_max_box :: "detail list \<Rightarrow> detail option" where
  "in_memory_get_max_box boxes = first_or_none boxes"

definition in_memory_pop_max_box :: "detail list \<Rightarrow> detail option \<times> detail list" where
  "in_memory_pop_max_box boxes = (case boxes of [] \<Rightarrow> (None, []) | x # xs \<Rightarrow> (Some x, xs))"

subsection \<open>The table of the database-backed storages\<close>

text \<open>
  The database is outside the repository. The table \<open>boxes\<close> is modelled as the list of
  its rows in insertion order; a row holds the four coordinates, the name and the type of
  a detail (\<open>_row_to_detail\<close> rebuilds the detail from them) together with
  \<open>min_size = min(width, height)\<close>, so a row is modelled as the detail itself.
  \<open>ORDER BY min_size DESC\<close> is modelled as a stable sort (SQL leaves the order of equal
  keys open), \<open>LIMIT k\<close> as \<open>take\<close>, and a negative limit as the error PostgreSQL
  reports for it.
\<close>

definition order_by_min_size_desc :: "detail list \<Rightarrow> detail list" where
  "order_by_min_size_desc rows = sort_key (\<lambda>r. - min_size r) rows"

definition delete_by_names :: "string list \<Rightarrow> detail list \<Rightarrow> detail list" where
  "delete_by_names names rows = filter (\<lambda>r. name r \<notin> set names) rows"

subsection \<open>DatabaseBoxStorage\<close>

definition database_add_box :: "detail \<Rightarrow> detail list \<Rightarrow> detail list" where
  "database_add_box d rows = rows @ [d]"

definition database_get_max_box :: "detail list \<Rightarrow> detail option" where
  "database_get_max_box rows = first_or_none (order_by_min_size_desc rows)"

text \<open>The row found is deleted by its \<open>id\<close>: one row leaves the table.\<close>

definition database_pop_max_box :: "detail list \<Rightarrow> detail option \<times> detail list" where
  "database_pop_max_box rows =
     (case order_by_min_size_desc rows of
        [] \<Rightarrow> (None, rows)
      | m # _ \<Rightarrow> (Some m, remove1 m rows))"

subsection \<open>HybridBoxStorage and HybridPartitionedBoxStorage\<close>

text \<open>
  The two classes have the same fields and, line for line, the same \<open>add_box\<close>,
  \<open>get_max_box\<close>, \<open>pop_max_box\<close>, \<open>_update_caches\<close>, \<open>_update_to_add_cache\<close> and
  \<open>_update_to_delete_cache\<close>; they differ in \<open>_update_max_cache\<close> and in the partitions
  the second class creates. One record models both: \<open>partition_ranges\<close> is \<open>None\<close> for
  \<open>HybridBoxStorage\<close> and the list of ranges for \<open>HybridPartitionedBoxStorage\<close>.
\<close>

record hybrid_box_storage =
  boxes_table :: "detail list"
  cache_size :: int
  to_add_cache :: "detail list"
  max_cache :: "detail list"
  to_delete_cache :: "detail list"
  partition_ranges :: "(real \<times> real) list option"

text \<open>
  \<open>_detail_comparator\<close> of the hybrid classes accepts \<open>None\<close> and then returns
  \<open>0\<close>, \<open>math.inf\<close> or \<open>-math.inf\<close>.
\<close>

datatype extended_float = Finite real | PosInf | NegInf

fun hybrid_detail_comparator :: "detail option \<Rightarrow> detail option \<Rightarrow> extended_float" where
  "hybrid_detail_comparator None None = Finite 0"
| "hybrid_detail_comparator None (Some detail2) = PosInf"
| "hybrid_detail_comparator (Some detail1) None = NegInf"
| "hybrid_detail_comparator (Some detail1) (Some detail2) =
     Finite (min (width detail2) (height detail2) - min (width detail1) (height detail1))"

fun ge_zero :: "extended_float \<Rightarrow> bool" where
  "ge_zero (Finite x) = (0 \<le> x)"
| "ge_zero PosInf = True"
| "ge_zero NegInf = False"

text \<open>
  A range partition of PostgreSQL holds the rows with \<open>lower \<le> min_size < upper\<close>; a row
  that no partition accepts cannot be inserted.
\<close>

definition in_partition :: "real \<times> real \<Rightarrow> detail \<Rightarrow> bool" where
  "in_partition rg r = (fst rg \<le> min_size r \<and> min_size r < snd rg)"

definition insert_rows ::
  "(real \<times> real) list option \<Rightarrow> detail list \<Rightarrow> detail list \<Rightarrow> error + detail list" where
  "insert_rows ranges new_rows rows =
     (case ranges of
        None \<Rightarrow> Inr (rows @ new_rows)
      | Some rgs \<Rightarrow>
          if list_all (\<lambda>r. list_ex (\<lambda>rg. in_partition rg r) rgs) new_rows
          then Inr (rows @ new_rows) else Inl DatabaseError)"

definition update_to_add_cache :: "hybrid_box_storage \<Rightarrow> error + hybrid_box_storage" where
  "update_to_add_cache s =
     (case insert_rows (partition_ranges s) (to_add_cache s) (boxes_table s) of
        Inl e \<Rightarrow> Inl e
      | Inr rows \<Rightarrow> Inr (s\<lparr>boxes_table := rows, to_add_cache := []\<rparr>))"

definition update_to_delete_cache :: "hybrid_box_storage \<Rightarrow> hybrid_box_storage" where
  "update_to_delete_cache s =
     s\<lparr>boxes_table := delete_by_names (map name (to_delete_cache s)) (boxes_table s),
       to_delete_cache := []\<rparr>"

text \<open>
  The loop of \<open>HybridPartitionedBoxStorage._update_max_cache\<close> over the partitions, in
  the order of \<open>partition_ranges\<close>, with \<open>remaining_cache_size\<close> and the cache built so far.
\<close>

fun fill_max_cache ::
  "detail list \<Rightarrow> int \<Rightarrow> (real \<times> real) list \<Rightarrow> detail list \<Rightarrow> detail list" where
  "fill_max_cache rows remaining_cache_size [] cache = cache"
| "fill_max_cache rows remaining_cache_size (rg # rgs) cache =
     (if 0 < remaining_cache_size then
        let found = take (nat remaining_cache_size)
                      (order_by_min_size_desc (filter (in_partition rg) rows))
        in fill_max_cache rows (remaining_cache_size - int (length found)) rgs
             (foldl (\<lambda>c r. sorted_set_add r c) cache found)
      else cache)"

definition update_max_cache :: "hybrid_box_storage \<Rightarrow> error + hybrid_box_storage" where
  "update_max_cache s =
     (case partition_ranges s of
        None \<Rightarrow>
          if cache_size s < 0 then Inl DatabaseError
          else Inr (s\<lparr>max_cache :=
                 foldl (\<lambda>c r. sorted_set_add r c) []
                   (take (nat (cache_size s)) (order_by_min_size_desc (boxes_table s)))\<rparr>)
      | Some rgs \<Rightarrow>
          Inr (s\<lparr>max_cache := fill_max_cache (boxes_table s) (cache_size s) rgs []\<rparr>))"

definition update_caches :: "hybrid_box_storage \<Rightarrow> error + hybrid_box_storage" where
  "update_caches s =
     (case update_to_add_cache s of
        Inl e \<Rightarrow> Inl e
      | Inr s1 \<Rightarrow> update_max_cache (update_to_delete_cache s1))"

definition hybrid_add_box :: "detail \<Rightarrow> hybrid_box_storage \<Rightarrow> error + hybrid_box_storage" where
  "hybrid_add_box d s =
     (let s1 = s\<lparr>to_add_cache := sorted_set_add d (to_add_cache s)\<rparr> in
      if cache_size s1 < int (length (to_add_cache s1)) then update_caches s1 else Inr s1)"

definition hybrid_get_max_box :: "hybrid_box_storage \<Rightarrow> detail option" where
  "hybrid_get_max_box s =
     (let max_from_to_add_cache = first_or_none (to_add_cache s);
          max_from_max_cache = first_or_none (max_cache s)
      in if ge_zero (hybrid_detail_comparator max_from_to_add_cache max_from_max_cache)
         then max_from_max_cache else max_from_to_add_cache)"

definition hybrid_pop_max_box ::
  "hybrid_box_storage \<Rightarrow> error + (detail option \<times> hybrid_box_storage)" where
  "hybrid_pop_max_box s =
     (let max_from_to_add_cache = first_or_none (to_add_cache s);
          max_from_max_cache = first_or_none (max_cache s)
      in if ge_zero (hybrid_detail_comparator max_from_to_add_cache max_from_max_cache) then
           (case max_cache s of
              [] \<Rightarrow> Inl IndexError
            | x # xs \<Rightarrow>
                let s1 = s\<lparr>to_delete_cache := to_delete_cache s @ [x], max_cache := xs\<rparr> in
                if xs = [] then
                  (case update_caches s1 of
                     Inl e \<Rightarrow> Inl e
                   | Inr s2 \<Rightarrow> Inr (max_from_max_cache, s2))
                else Inr (max_from_max_cache, s1))
         else
           (case to_add_cache s of
              [] \<Rightarrow> Inl IndexError
            | x # xs \<Rightarrow> Inr (max_from_to_add_cache, s\<lparr>to_add_cache := xs\<rparr>)))"

text \<open>\<open>HybridBoxStorage(db_url, table_name, cache_size)\<close>: the table is dropped and created.\<close>

definition HybridBoxStorage :: "int \<Rightarrow> hybrid_box_storage" where
  "HybridBoxStorage cs =
     \<lparr>boxes_table = [], cache_size = cs, to_add_cache = [], max_cache = [],
      to_delete_cache = [], partition_ranges = None\<rparr>"

text \<open>
  \<open>_create_partition_ranges\<close>. The two powers are computed before the first and the
  last range overwrite one of them, so both divisions are made for every \<open>i\<close>. A bound
  that is a complex number is rejected when the partition is created; the model reports
  it as the error of \<open>float_pow\<close>, and only for a bound that is not overwritten.
\<close>

definition partition_range ::
  "int \<Rightarrow> real \<Rightarrow> int \<Rightarrow> int \<Rightarrow> int \<Rightarrow> error + (real \<times> real)" where
  "partition_range n g boxes_in_partition number_of_partitions i =
     (let first_n = n + i * boxes_in_partition;
          last_n = n + (i + 1) * boxes_in_partition
      in if last_n = 0 \<or> first_n = 0 then Inl ZeroDivisionError
         else
           case (if i = number_of_partitions - 1 then Inr 0 else float_pow (1 / of_int last_n) g) of
             Inl e \<Rightarrow> Inl e
           | Inr min_detail \<Rightarrow>
               (case (if i = 0 then Inr 1 else float_pow (1 / of_int first_n) g) of
                  Inl e \<Rightarrow> Inl e
                | Inr max_detail \<Rightarrow> Inr (min_detail, max_detail)))"

fun collect_ranges :: "(int \<Rightarrow> error + (real \<times> real)) \<Rightarrow> int list \<Rightarrow> error + (real \<times> real) list" where
  "collect_ranges f [] = Inr []"
| "collect_ranges f (i # is) =
     (case f i of
        Inl e \<Rightarrow> Inl e
      | Inr rg \<Rightarrow> (case collect_ranges f is of Inl e \<Rightarrow> Inl e | Inr rgs \<Rightarrow> Inr (rg # rgs)))"

definition create_partition_ranges ::
  "int \<Rightarrow> real \<Rightarrow> int \<Rightarrow> int \<Rightarrow> error + (real \<times> real) list" where
  "create_partition_ranges n g mp boxes_in_partition =
     (if boxes_in_partition = 0 then Inl ZeroDivisionError
      else
        let number_of_partitions = mp div boxes_in_partition + 1 in
        collect_ranges (partition_range n g boxes_in_partition number_of_partitions)
          [0 .. number_of_partitions - 1])"

text \<open>
  \<open>_create_partitions\<close>: PostgreSQL creates a range partition when its lower bound is
  below its upper bound and it overlaps no partition created before.
\<close>

definition ranges_overlap :: "real \<times> real \<Rightarrow> real \<times> real \<Rightarrow> bool" where
  "ranges_overlap a b = (fst a < snd b \<and> fst b < snd a)"

fun partitions_accepted :: "(real \<times> real) list \<Rightarrow> (real \<times> real) list \<Rightarrow> bool" where
  "partitions_accepted created [] = True"
| "partitions_accepted created (rg # rgs) =
     (fst rg < snd rg \<and> \<not> list_ex (ranges_overlap rg) created
      \<and> partitions_accepted (created @ [rg]) rgs)"

definition HybridPartitionedBoxStorage ::
  "int \<Rightarrow> real \<Rightarrow> int \<Rightarrow> int \<Rightarrow> int \<Rightarrow> error + hybrid_box_storage" where
  "HybridPartitionedBoxStorage n g mp boxes_in_partition cs =
     (case create_partition_ranges n g mp boxes_in_partition of
        Inl e \<Rightarrow> Inl e
      | Inr rgs \<Rightarrow>
          if partitions_accepted [] rgs then
            Inr \<lparr>boxes_table = [], cache_size = cs, to_add_cache = [], max_cache = [],
                 to_delete_cache = [], partition_ranges = Some rgs\<rparr>
          else Inl DatabaseError)"

subsection \<open>The interface BoxStorage\<close>

datatype box_storage =
    InMemory "detail list"
  | Database "detail list"
  | Hybrid hybrid_box_storage

fun add_box :: "detail \<Rightarrow> box_storage \<Rightarrow> error + box_storage" where
  "add_box d (InMemory boxes) = Inr (InMemory (in_memory_add_box d boxes))"
| "add_box d (Database rows) = Inr (Database (database_add_box d rows))"
| "add_box d (Hybrid s) =
     (case hybrid_add_box d s of Inl e \<Rightarrow> Inl e | Inr s' \<Rightarrow> Inr (Hybrid s'))"

fun get_max_box :: "box_storage \<Rightarrow> detail option" where
  "get_max_box (InMemory boxes) = in_memory_get_max_box boxes"
| "get_max_box (Database rows) = database_get_max_box rows"
| "get_max_box (Hybrid s) = hybrid_get_max_box s"

fun pop_max_box :: "box_storage \<Rightarrow> error + (detail option \<times> box_storage)" where
  "pop_max_box (InMemory boxes) =
     (case in_memory_pop_max_box boxes of (r, boxes') \<Rightarrow> Inr (r, InMemory boxes'))"
| "pop_max_box (Database rows) =
     (case database_pop_max_box rows of (r, rows') \<Rightarrow> Inr (r, Database rows'))"
| "pop_max_box (Hybrid s) =
     (case hybrid_pop_max_box s of Inl e \<Rightarrow> Inl e | Inr (r, s') \<Rightarrow> Inr (r, Hybrid s'))"

definition InMemoryBoxStorage :: box_storage where
  "InMemoryBoxStorage = InMemory []"

definition DatabaseBoxStorage :: box_storage where
  "DatabaseBoxStorage = Database []"

section \<open>The Slack-Pack engine (algorithm/slack\_pack\_algorithm.py)\<close>

text \<open>
  The fields of \<open>SlackPackAlgorithm\<close>. The statistic listeners are left out: they
  receive events and, by their contract, change neither the engine nor the list of placed
  details, so the calls of \<open>_notify_statistic_listeners\<close> have no effect in the model.
\<close>

record slack_pack_algorithm =
  gamma :: real
  n0 :: int
  max_placed :: int
  box_storage :: box_storage
  update_placed_details :: bool
  lrp :: "detail option"
  active_box :: "detail option"
  active_box_first_detail_index :: int
  is_active_box_horizontal :: bool
  last_placed_index :: int
  endpoints_placed :: int
  active_box_from :: "string option"

definition SlackPackAlgorithm ::
  "real \<Rightarrow> int \<Rightarrow> int \<Rightarrow> box_storage \<Rightarrow> bool \<Rightarrow> slack_pack_algorithm" where
  "SlackPackAlgorithm g n mp storage upd =
     \<lparr>gamma = g, n0 = n, max_placed = mp, box_storage = storage,
      update_placed_details = upd, lrp = None, active_box = None,
      active_box_first_detail_index = n - 1, is_active_box_horizontal = False,
      last_placed_index = n - 1, endpoints_placed = 1, active_box_from = None\<rparr>"

text \<open>
  A method of the engine mutates the engine and the list \<open>placed_details\<close> it was lent.
  In the model it returns the new values, or, when it raises, the exception together with
  the list as the method left it: that is the list the caller still holds.
\<close>

type_synonym 'a result = "(error \<times> detail list) + 'a"

text \<open>\<open>list.remove(x)\<close>: the first element equal to \<open>x\<close> leaves; \<open>ValueError\<close> if there is none.\<close>

definition list_remove :: "detail \<Rightarrow> detail list \<Rightarrow> error + detail list" where
  "list_remove x xs = (if x \<in> set xs then Inr (remove1 x xs) else Inl ValueError)"

definition check_if_lrp_none ::
  "slack_pack_algorithm \<Rightarrow> detail list \<Rightarrow> slack_pack_algorithm result" where
  "check_if_lrp_none st placed_details =
     (if lrp st = None then
        (case placed_details of
           [] \<Rightarrow> Inl (IndexError, placed_details)
         | p # _ \<Rightarrow> Inr (st\<lparr>lrp := Some p\<rparr>))
      else Inr st)"

definition check_active_box_size ::
  "real \<times> real \<Rightarrow> slack_pack_algorithm \<Rightarrow> detail list \<Rightarrow> slack_pack_algorithm result" where
  "check_active_box_size d st placed_details =
     (case active_box st of
        None \<Rightarrow> Inr st
      | Some ab \<Rightarrow>
          (case inverse_pow (active_box_first_detail_index st) (gamma st) of
             Inl e \<Rightarrow> Inl (e, placed_details)
           | Inr required_gap \<Rightarrow>
               let total_length = fst d + required_gap in
               if (is_active_box_horizontal st \<and> total_length > width ab) \<or>
                  (\<not> is_active_box_horizontal st \<and> total_length > height ab)
               then
                 (case add_box ab (box_storage st) of
                    Inl e \<Rightarrow> Inl (e, placed_details)
                  | Inr storage \<Rightarrow>
                      Inr (st\<lparr>box_storage := storage, active_box := None,
                              endpoints_placed := endpoints_placed st + 1\<rparr>))
               else Inr st))"

definition choose_active_box_from_box ::
  "slack_pack_algorithm \<Rightarrow> detail list \<Rightarrow> slack_pack_algorithm result" where
  "choose_active_box_from_box st placed_details =
     (case pop_max_box (box_storage st) of
        Inl e \<Rightarrow> Inl (e, placed_details)
      | Inr (None, storage) \<Rightarrow> Inl (AttributeError, placed_details)
      | Inr (Some b, storage) \<Rightarrow>
          Inr (st\<lparr>box_storage := storage, active_box := Some b,
                  active_box_from := Some (detail_type b),
                  is_active_box_horizontal := (width b \<ge> height b)\<rparr>))"

definition cut_new_strip ::
  "real \<times> real \<Rightarrow> slack_pack_algorithm \<Rightarrow> detail list \<Rightarrow>
   (slack_pack_algorithm \<times> detail list) result" where
  "cut_new_strip d st placed_details =
     (case lrp st of
        None \<Rightarrow> Inl (AttributeError, placed_details)
      | Some l \<Rightarrow>
          (case inverse_pow (last_placed_index st + 1) (gamma st) of
             Inl e \<Rightarrow> Inl (e, placed_details)
           | Inr required_gap \<Rightarrow>
               if snd d + required_gap > max (width l) (height l) \<or>
                  fst d + required_gap > min (width l) (height l)
               then Inl (AlgorithmExecutionException
                           ''Unable to cut a new stripe, LRP is too small'', placed_details)
               else
                 let horizontal = (width l \<le> height l);
                     active_box_bottom_left =
                       (if horizontal then bottom_left l
                        else (fst (top_right l) - snd d - required_gap, snd (bottom_left l)));
                     active_box_top_right =
                       (if horizontal
                        then (fst (top_right l), snd (bottom_left l) + snd d + required_gap)
                        else top_right l);
                     new_lrp_bottom_left =
                       (if horizontal
                        then (fst (bottom_left l), snd (bottom_left l) + snd d + required_gap)
                        else bottom_left l);
                     new_lrp_top_right =
                       (if horizontal then top_right l
                        else (fst (top_right l) - snd d - required_gap, snd (top_right l)));
                     ab = Detail active_box_bottom_left active_box_top_right
                            (''E'' @ str_int (endpoints_placed st)) ''endpoint_1'';
                     new_lrp = Detail new_lrp_bottom_left new_lrp_top_right ''LRP'' ''lrp'';
                     st' = st\<lparr>active_box_from := Some (detail_type l),
                              is_active_box_horizontal := horizontal,
                              active_box := Some ab, lrp := Some new_lrp\<rparr>
                 in if update_placed_details st then
                      (case list_remove l placed_details of
                         Inl e \<Rightarrow> Inl (e, placed_details)
                       | Inr ps \<Rightarrow> Inr (st', ps @ [ab, new_lrp]))
                    else Inr (st', placed_details)))"

definition choose_active_box ::
  "real \<times> real \<Rightarrow> slack_pack_algorithm \<Rightarrow> detail list \<Rightarrow>
   (slack_pack_algorithm \<times> detail list) result" where
  "choose_active_box d st placed_details =
     (if active_box st = None then
        let st1 = st\<lparr>active_box_first_detail_index := last_placed_index st + 1\<rparr>;
            max_box = get_max_box (box_storage st1);
            max_box_size = (case max_box of Some b \<Rightarrow> min (width b) (height b) | None \<Rightarrow> - 1)
        in (case inverse_pow (active_box_first_detail_index st1) (gamma st1) of
              Inl e \<Rightarrow> Inl (e, placed_details)
            | Inr required_gap \<Rightarrow>
                let total_length = snd d + required_gap in
                if total_length \<le> max_box_size then
                  (case choose_active_box_from_box st1 placed_details of
                     Inl e \<Rightarrow> Inl e
                   | Inr st2 \<Rightarrow> Inr (st2, placed_details))
                else cut_new_strip d st1 placed_details)
      else Inr (st, placed_details))"

definition get_normal_box_type :: "slack_pack_algorithm \<Rightarrow> string" where
  "get_normal_box_type st =
     (if active_box_from st = Some ''lrp'' then ''normal_box_1'' else ''normal_box_2'')"

definition get_endpoint_type :: "slack_pack_algorithm \<Rightarrow> string" where
  "get_endpoint_type st =
     (if active_box_from st = Some ''lrp'' \<or> active_box_from st = Some ''endpoint_1''
      then ''endpoint_1'' else ''endpoint_2'')"

text \<open>The three rectangles \<open>_place_detail_in_active_box\<close> builds, with \<open>n\<close> the new index.\<close>

definition placed_detail_of :: "slack_pack_algorithm \<Rightarrow> detail \<Rightarrow> real \<times> real \<Rightarrow> int \<Rightarrow> detail" where
  "placed_detail_of st ab d n =
     (if is_active_box_horizontal st then
        Detail (bottom_left ab)
          (fst (bottom_left ab) + fst d, snd (bottom_left ab) + snd d)
          (''D'' @ str_int n) ''detail''
      else
        Detail (fst (top_right ab) - snd d, snd (bottom_left ab))
          (fst (top_right ab), snd (bottom_left ab) + fst d)
          (''D'' @ str_int n) ''detail'')"

definition normal_box_of :: "slack_pack_algorithm \<Rightarrow> detail \<Rightarrow> real \<times> real \<Rightarrow> int \<Rightarrow> detail" where
  "normal_box_of st ab d n =
     (if is_active_box_horizontal st then
        Detail (fst (bottom_left ab), snd (bottom_left ab) + snd d)
          (fst (bottom_left ab) + fst d, snd (top_right ab))
          (''B'' @ str_int n) (get_normal_box_type st)
      else
        Detail (bottom_left ab)
          (fst (top_right ab) - snd d, snd (bottom_left ab) + fst d)
          (''B'' @ str_int n) (get_normal_box_type st))"

definition endpoint_of :: "slack_pack_algorithm \<Rightarrow> detail \<Rightarrow> real \<times> real \<Rightarrow> detail" where
  "endpoint_of st ab d =
     (if is_active_box_horizontal st then
        Detail (fst (bottom_left ab) + fst d, snd (bottom_left ab)) (top_right ab)
          (''E'' @ str_int (endpoints_placed st)) (get_endpoint_type st)
      else
        Detail (fst (bottom_left ab), snd (bottom_left ab) + fst d) (top_right ab)
          (''E'' @ str_int (endpoints_placed st)) (get_endpoint_type st))"

definition place_detail_in_active_box ::
  "real \<times> real \<Rightarrow> slack_pack_algorithm \<Rightarrow> detail list \<Rightarrow>
   (slack_pack_algorithm \<times> detail list) result" where
  "place_detail_in_active_box d st placed_details =
     (case active_box st of
        None \<Rightarrow> Inl (AttributeError, placed_details)
      | Some ab \<Rightarrow>
          let n = last_placed_index st + 1;
              placed_detail = placed_detail_of st ab d n;
              normal_box = normal_box_of st ab d n;
              endpoint = endpoint_of st ab d
          in (case (if update_placed_details st then
                      (case list_remove ab placed_details of
                         Inl e \<Rightarrow> Inl (e, placed_details)
                       | Inr ps \<Rightarrow> Inr (ps @ [placed_detail, normal_box, endpoint]))
                    else Inr placed_details) of
                Inl e \<Rightarrow> Inl e
              | Inr ps \<Rightarrow>
                  (case add_box normal_box (box_storage st) of
                     Inl e \<Rightarrow> Inl (e, ps)
                   | Inr storage \<Rightarrow>
                       Inr (st\<lparr>last_placed_index := n, active_box := Some endpoint,
                               box_storage := storage\<rparr>, ps))))"

definition place_next ::
  "real \<times> real \<Rightarrow> slack_pack_algorithm \<Rightarrow> detail list \<Rightarrow>
   (slack_pack_algorithm \<times> detail list) result" where
  "place_next d st placed_details =
     (case check_if_lrp_none st placed_details of
        Inl e \<Rightarrow> Inl e
      | Inr st1 \<Rightarrow>
          (case check_active_box_size d st1 placed_details of
             Inl e \<Rightarrow> Inl e
           | Inr st2 \<Rightarrow>
               (case choose_active_box d st2 placed_details of
                  Inl e \<Rightarrow> Inl e
                | Inr (st3, ps) \<Rightarrow> place_detail_in_active_box d st3 ps)))"

section \<open>The driver (core/detail\_placer.py)\<close>

text \<open>
  \<open>run_algorithm\<close>: the loop draws a detail, and places it while \<open>num_placed < max_placed\<close>;
  any exception leaves the loop, and the list is returned in every case. Beside the list
  the model returns how many times \<open>place_next\<close> was called.
\<close>

function run_loop ::
  "int \<Rightarrow> int \<Rightarrow> detail_generator \<Rightarrow> slack_pack_algorithm \<Rightarrow> detail list \<Rightarrow> nat \<Rightarrow>
   detail list \<times> nat" where
  "run_loop mp num_placed g st placed_details calls =
     (case generator_next g of
        Inl e \<Rightarrow> (placed_details, calls)
      | Inr (d, g') \<Rightarrow>
          if num_placed < mp then
            (case place_next d st placed_details of
               Inl (e, ps) \<Rightarrow> (ps, calls + 1)
             | Inr (st', ps) \<Rightarrow> run_loop mp (num_placed + 1) g' st' ps (calls + 1))
          else (placed_details, calls))"
  by pat_completeness auto
termination
  by (relation "measure (\<lambda>(mp, num_placed, g, st, ps, calls). nat (mp - num_placed))") auto

record detail_placer =
  algorithm :: slack_pack_algorithm
  detail_generator :: detail_generator
  base_detail :: detail
  placer_max_placed :: int

definition run_algorithm :: "detail_placer \<Rightarrow> detail list \<times> nat" where
  "run_algorithm p =
     run_loop (placer_max_placed p) 0 (detail_generator p) (algorithm p) [base_detail p] 0"

declare run_loop.simps [simp del]

section \<open>Concrete runs used by the closed theorems below\<close>

definition example_sheet :: detail where
  "example_sheet = Detail (0, 0) (10, 10) ''LRP'' ''lrp''"

definition example_engine :: slack_pack_algorithm where
  "example_engine = SlackPackAlgorithm 1 1 2 InMemoryBoxStorage True"

definition example_lrp_1 :: detail where
  "example_lrp_1 = Detail (0, 2) (10, 10) ''LRP'' ''lrp''"

definition example_detail_1 :: detail where
  "example_detail_1 = Detail (0, 0) (1, 1) ''D1'' ''detail''"

definition example_box_1 :: detail where
  "example_box_1 = Detail (0, 1) (1, 2) ''B1'' ''normal_box_1''"

definition example_endpoint_1 :: detail where
  "example_endpoint_1 = Detail (1, 0) (10, 2) ''E1'' ''endpoint_1''"

definition example_engine_1 :: slack_pack_algorithm where
  "example_engine_1 =
     example_engine\<lparr>lrp := Some example_lrp_1, active_box := Some example_endpoint_1,
       active_box_first_detail_index := 1, is_active_box_horizontal := True,
       last_placed_index := 1, active_box_from := Some ''lrp'',
       box_storage := InMemory [example_box_1]\<rparr>"

definition example_placements_1 :: "detail list" where
  "example_placements_1 = [example_lrp_1, example_detail_1, example_box_1, example_endpoint_1]"

definition example_engine_2 :: slack_pack_algorithm where
  "example_engine_2 =
     example_engine_1\<lparr>active_box := Some (Detail (2, 0) (10, 2) ''E1'' ''endpoint_1''),
       last_placed_index := 2,
       box_storage := InMemory [example_box_1, Detail (1, 1 / 2) (2, 2) ''B2'' ''normal_box_1'']\<rparr>"

text \<open>The range of partition \<open>i\<close> of \<open>p\<close> in closed form, for the proofs about \<open>_create_partition_ranges\<close>.\<close>

definition range_bounds :: "int \<Rightarrow> real \<Rightarrow> int \<Rightarrow> int \<Rightarrow> int \<Rightarrow> real \<times> real" where
  "range_bounds n g b p i =
     (if i = p - 1 then 0 else (1 / of_int (n + (i + 1) * b)) powr g,
      if i = 0 then 1 else (1 / of_int (n + i * b)) powr g)"

definition example_hybrid_engine :: slack_pack_algorithm where
  "example_hybrid_engine = SlackPackAlgorithm 1 1 2 (Hybrid (HybridBoxStorage 10)) True"

definition example_placer :: detail_placer where
  "example_placer =
     \<lparr>algorithm = example_engine,
      detail_generator = Square (HarmonicSquareDetailGenerator 1),
      base_detail = example_sheet, placer_max_placed = 1\<rparr>"






section \<open>Rectangles in the plane: the properties the placements list is checked for\<close>









section \<open>Verification: evaluation of the concrete runs\<close>

lemma str_int_small: "str_int 1 = ''1''" "str_int 2 = ''2''"
  by (simp_all add: str_int_def str_nat.simps digit_char_def)

lemma inverse_pow_gamma_one: "inverse_pow 1 1 = Inr 1" "inverse_pow 2 1 = Inr (1/2)"
  by (simp_all add: inverse_pow_def float_pow_def)

lemmas example_defs = example_engine_def example_sheet_def example_lrp_1_def example_detail_1_def
  example_box_1_def example_endpoint_1_def example_engine_1_def example_placements_1_def
  SlackPackAlgorithm_def InMemoryBoxStorage_def

lemmas engine_defs = place_next_def check_if_lrp_none_def check_active_box_size_def choose_active_box_def
     in_memory_get_max_box_def first_or_none_def cut_new_strip_def Detail_def width_def height_def
     list_remove_def Let_def place_detail_in_active_box_def placed_detail_of_def normal_box_of_def endpoint_of_def
     get_normal_box_type_def get_endpoint_type_def in_memory_add_box_def sorted_set_add_def
     choose_active_box_from_box_def in_memory_pop_max_box_def detail_comparator_def

section \<open>Verification: what \<open>add_box\<close> leaves in a storage\<close>

lemma set_sorted_insert: "set (sorted_insert d xs) = insert d (set xs)"
  by (induction xs) auto

lemma set_sorted_set_add: "set (sorted_set_add d xs) = insert d (set xs)"
  by (auto simp: sorted_set_add_def set_sorted_insert)

lemma update_caches_table:
  assumes "update_caches s = Inr s'"
  shows "boxes_table s' = delete_by_names (map name (to_delete_cache s)) (boxes_table s @ to_add_cache s)"
    and "to_add_cache s' = []" and "to_delete_cache s' = []"
  using assms
  by (auto simp: update_caches_def update_to_add_cache_def insert_rows_def update_max_cache_def
      update_to_delete_cache_def split: sum.splits option.splits if_splits)

lemma hybrid_add_box_holds:
  assumes "hybrid_add_box d s = Inr s'"
  shows "d \<in> set (to_add_cache s') \<or> d \<in> set (boxes_table s')
         \<or> name d \<in> set (map name (to_delete_cache s))"
proof (cases "cache_size s < int (length (sorted_set_add d (to_add_cache s)))")
  case False
  with assms have "s' = s\<lparr>to_add_cache := sorted_set_add d (to_add_cache s)\<rparr>"
    by (simp add: hybrid_add_box_def Let_def)
  then show ?thesis by (simp add: set_sorted_set_add)
next
  case True
  with assms have u: "update_caches (s\<lparr>to_add_cache := sorted_set_add d (to_add_cache s)\<rparr>) = Inr s'"
    by (simp add: hybrid_add_box_def Let_def)
  from update_caches_table(1)[OF u] show ?thesis
    by (auto simp: delete_by_names_def set_sorted_set_add)
qed

section \<open>Verification: the detail generators\<close>

lemma foldl_minus: "foldl (\<lambda>b i. b - f i) (a::real) xs = a - sum_list (map f xs)"
  by (induction xs arbitrary: a) (auto simp: algebra_simps)

lemma sum_list_upto: "sum_list (map f [1 .. m]) = sum f {1 .. m::int}"
  by (simp add: sum_list_distinct_conv_sum_set)

lemma square_after_calls:
  "1 \<le> d \<Longrightarrow>
   after_calls j (Square \<lparr>sq_n0 = n, sq_denominator = d\<rparr>) =
     Inr (Square \<lparr>sq_n0 = n, sq_denominator = d + int j\<rparr>)"
  by (induction j arbitrary: d) (auto simp: square_next_def Let_def)

lemma rectangle_after_calls:
  "1 \<le> d \<Longrightarrow>
   after_calls j (Rectangle \<lparr>re_n0 = n, re_denominator = d, is_width_smaller = b\<rparr>) =
     Inr (Rectangle \<lparr>re_n0 = n, re_denominator = d + int j, is_width_smaller = b\<rparr>)"
  by (induction j arbitrary: d) (auto simp: rectangle_next_def Let_def)

text \<open>
  Claim C9. For \<open>n\<^sub>0 \<ge> 1\<close> and \<open>k \<ge> 1\<close> the \<open>k\<close>-th call of \<open>next()\<close> on the square
  generator returns \<open>(1/(n\<^sub>0+k-1), 1/(n\<^sub>0+k-1))\<close>; on the rectangle generator it returns
  \<open>(1/(n\<^sub>0+k), 1/(n\<^sub>0+k-1))\<close> when the width is the smaller side and
  \<open>(1/(n\<^sub>0+k-1), 1/(n\<^sub>0+k))\<close> otherwise. The base size does not depend on the calls made
  before: after any number \<open>j\<close> of calls it is what it was at construction, namely
  \<open>math.sqrt\<close> of \<open>\<pi>\<^sup>2/6 - \<Sum>\<^bsub>i=1\<^esub>\<^bsup>n\<^sub>0-1\<^esup> (1/i)\<^sup>2\<close> in both components for squares (the square root
  of that number whenever it is not negative, which is where \<open>math.sqrt\<close> returns), and
  \<open>\<surd>(1/n\<^sub>0)\<close> in both components for rectangles.
\<close>

theorem generators_kth_call_and_base_size:
  assumes "1 \<le> n" and "1 \<le> k"
  shows "kth_call k (Square (HarmonicSquareDetailGenerator n)) =
           Inr (1 / of_int (n + int k - 1), 1 / of_int (n + int k - 1))
   \<and> kth_call k (Rectangle (HarmonicRectangleDetailGenerator n True)) =
           Inr (1 / of_int (n + int k), 1 / of_int (n + int k - 1))
   \<and> kth_call k (Rectangle (HarmonicRectangleDetailGenerator n False)) =
           Inr (1 / of_int (n + int k - 1), 1 / of_int (n + int k))
   \<and> (\<forall>j. \<exists>g. after_calls j (Square (HarmonicSquareDetailGenerator n)) = Inr g
           \<and> get_base_size g = get_base_size (Square (HarmonicSquareDetailGenerator n)))
   \<and> (\<forall>j b. \<exists>g. after_calls j (Rectangle (HarmonicRectangleDetailGenerator n b)) = Inr g
           \<and> get_base_size g = get_base_size (Rectangle (HarmonicRectangleDetailGenerator n b)))
   \<and> get_base_size (Square (HarmonicSquareDetailGenerator n)) =
        (let a = pi ^ 2 / 6 - (\<Sum>i = 1 .. n - 1. (1 / of_int i) ^ 2) in
         if a < 0 then Inl ValueError else Inr (sqrt a, sqrt a))
   \<and> (\<forall>b. get_base_size (Rectangle (HarmonicRectangleDetailGenerator n b)) =
           Inr (sqrt (1 / of_int n), sqrt (1 / of_int n)))"
proof -
  obtain j where k: "k = Suc j"
    using assms(2) by (cases k) auto
  have nz: "n + int j \<noteq> 0" "n + int j + 1 \<noteq> 0" "n + 1 + int j \<noteq> 0"
    using assms(1) by auto
  have sq: "kth_call k (Square (HarmonicSquareDetailGenerator n)) =
      Inr (1 / of_int (n + int k - 1), 1 / of_int (n + int k - 1))"
    using assms(1) nz
    by (simp add: kth_call_def k HarmonicSquareDetailGenerator_def square_after_calls
        square_next_def Let_def)
  have re: "kth_call k (Rectangle (HarmonicRectangleDetailGenerator n b)) =
      (if b then Inr (1 / of_int (n + int k), 1 / of_int (n + int k - 1))
       else Inr (1 / of_int (n + int k - 1), 1 / of_int (n + int k)))" for b
    using assms(1) nz
    by (simp add: kth_call_def k HarmonicRectangleDetailGenerator_def rectangle_after_calls
        rectangle_next_def Let_def add.commute add.left_commute)
  have pure_sq: "\<exists>g. after_calls i (Square (HarmonicSquareDetailGenerator n)) = Inr g
      \<and> get_base_size g = get_base_size (Square (HarmonicSquareDetailGenerator n))" for i
    using assms(1)
    by (simp add: HarmonicSquareDetailGenerator_def square_after_calls square_get_base_size_def)
  have pure_re: "\<exists>g. after_calls i (Rectangle (HarmonicRectangleDetailGenerator n b)) = Inr g
      \<and> get_base_size g = get_base_size (Rectangle (HarmonicRectangleDetailGenerator n b))"
    for i b
    using assms(1)
    by (simp add: HarmonicRectangleDetailGenerator_def rectangle_after_calls
        rectangle_get_base_size_def)
  have base_sq: "get_base_size (Square (HarmonicSquareDetailGenerator n)) =
      (let a = pi ^ 2 / 6 - (\<Sum>i = 1 .. n - 1. (1 / of_int i) ^ 2) in
       if a < 0 then Inl ValueError else Inr (sqrt a, sqrt a))"
    by (simp add: square_get_base_size_def HarmonicSquareDetailGenerator_def foldl_minus
        sum_list_upto math_sqrt_def Let_def)
  have base_re: "get_base_size (Rectangle (HarmonicRectangleDetailGenerator n b)) =
      Inr (sqrt (1 / of_int n), sqrt (1 / of_int n))" for b
    using assms(1)
    by (simp add: rectangle_get_base_size_def HarmonicRectangleDetailGenerator_def math_sqrt_def)
  show ?thesis
    using sq re[of True] re[of False] pure_sq pure_re base_sq base_re by simp
qed

theorem generators_kth_call_and_base_size_witness:
  "kth_call 3 (Square (HarmonicSquareDetailGenerator 1)) = Inr (1 / 3, 1 / 3)
   \<and> kth_call 3 (Rectangle (HarmonicRectangleDetailGenerator 1 True)) = Inr (1 / 4, 1 / 3)
   \<and> kth_call 3 (Rectangle (HarmonicRectangleDetailGenerator 1 False)) = Inr (1 / 3, 1 / 4)
   \<and> get_base_size (Square (HarmonicSquareDetailGenerator 1)) =
        Inr (sqrt (pi ^ 2 / 6), sqrt (pi ^ 2 / 6))
   \<and> get_base_size (Rectangle (HarmonicRectangleDetailGenerator 1 True)) = Inr (1, 1)"
  using generators_kth_call_and_base_size[of 1 3] by (simp add: Let_def)

section \<open>Verification: retiring the active box\<close>

text \<open>
  Claim C1, as amended. When an active box exists and the detail width plus the slack gap
  \<open>g = (1 / active_box_first_detail_index) ^ gamma\<close> exceeds the major-axis length of
  the active box (its width when horizontal, its height otherwise), \<open>_check_active_box_size\<close>
  calls \<open>add_box\<close> of the storage on the active box, and then increments
  \<open>endpoints_placed\<close> by one and sets \<open>active_box\<close> to absent; \<open>place_next\<close> goes on
  from that state. The active box is stored, not discarded: the set of the in-memory
  storage becomes the old set with the box inserted (in key order, unless an equal box is
  a member already), the table of the database storage gets the box as its last row, and
  a hybrid storage holds the box in its to-add cache or, when the call flushed the caches,
  in its table, unless a deletion that was pending carried the name of the box.
\<close>

theorem retire_adds_active_box_to_storage:
  assumes "active_box st = Some ab"
      and "inverse_pow (active_box_first_detail_index st) (gamma st) = Inr g"
      and "fst d + g > (if is_active_box_horizontal st then width ab else height ab)"
  shows "check_active_box_size d st ps =
           (case add_box ab (box_storage st) of
              Inl e \<Rightarrow> Inl (e, ps)
            | Inr storage \<Rightarrow>
                Inr (st\<lparr>box_storage := storage, active_box := None,
                        endpoints_placed := endpoints_placed st + 1\<rparr>))
       \<and> (lrp st \<noteq> None \<longrightarrow>
            place_next d st ps =
              (case add_box ab (box_storage st) of
                 Inl e \<Rightarrow> Inl (e, ps)
               | Inr storage \<Rightarrow>
                   (case choose_active_box d
                           (st\<lparr>box_storage := storage, active_box := None,
                               endpoints_placed := endpoints_placed st + 1\<rparr>) ps of
                      Inl e \<Rightarrow> Inl e
                    | Inr (st3, ps3) \<Rightarrow> place_detail_in_active_box d st3 ps3)))
       \<and> (\<forall>boxes. box_storage st = InMemory boxes \<longrightarrow>
            check_active_box_size d st ps =
              Inr (st\<lparr>box_storage :=
                         InMemory (if ab \<in> set boxes then boxes else sorted_insert ab boxes),
                      active_box := None, endpoints_placed := endpoints_placed st + 1\<rparr>)
            \<and> set (if ab \<in> set boxes then boxes else sorted_insert ab boxes) = insert ab (set boxes))
       \<and> (\<forall>rows. box_storage st = Database rows \<longrightarrow>
            check_active_box_size d st ps =
              Inr (st\<lparr>box_storage := Database (rows @ [ab]),
                      active_box := None, endpoints_placed := endpoints_placed st + 1\<rparr>))
       \<and> (\<forall>s st'. box_storage st = Hybrid s \<and> check_active_box_size d st ps = Inr st' \<longrightarrow>
            (\<exists>s'. hybrid_add_box ab s = Inr s'
                 \<and> st' = st\<lparr>box_storage := Hybrid s', active_box := None,
                            endpoints_placed := endpoints_placed st + 1\<rparr>
                 \<and> (ab \<in> set (to_add_cache s') \<or> ab \<in> set (boxes_table s')
                      \<or> name ab \<in> set (map name (to_delete_cache s)))))"
proof -
  have step: "check_active_box_size d st ps =
           (case add_box ab (box_storage st) of
              Inl e \<Rightarrow> Inl (e, ps)
            | Inr storage \<Rightarrow>
                Inr (st\<lparr>box_storage := storage, active_box := None,
                        endpoints_placed := endpoints_placed st + 1\<rparr>))"
    using assms by (simp add: check_active_box_size_def Let_def split: if_splits)
  have next_step: "lrp st \<noteq> None \<longrightarrow>
            place_next d st ps =
              (case add_box ab (box_storage st) of
                 Inl e \<Rightarrow> Inl (e, ps)
               | Inr storage \<Rightarrow>
                   (case choose_active_box d
                           (st\<lparr>box_storage := storage, active_box := None,
                               endpoints_placed := endpoints_placed st + 1\<rparr>) ps of
                      Inl e \<Rightarrow> Inl e
                    | Inr (st3, ps3) \<Rightarrow> place_detail_in_active_box d st3 ps3))"
    by (simp add: step place_next_def check_if_lrp_none_def split: sum.splits)
  have mem: "check_active_box_size d st ps =
              Inr (st\<lparr>box_storage :=
                         InMemory (if ab \<in> set boxes then boxes else sorted_insert ab boxes),
                      active_box := None, endpoints_placed := endpoints_placed st + 1\<rparr>)
            \<and> set (if ab \<in> set boxes then boxes else sorted_insert ab boxes) = insert ab (set boxes)"
    if "box_storage st = InMemory boxes" for boxes
    using that by (auto simp add: step in_memory_add_box_def sorted_set_add_def set_sorted_insert)
  have db: "check_active_box_size d st ps =
              Inr (st\<lparr>box_storage := Database (rows @ [ab]),
                      active_box := None, endpoints_placed := endpoints_placed st + 1\<rparr>)"
    if "box_storage st = Database rows" for rows
    using that by (simp add: step database_add_box_def)
  have hy: "\<exists>s'. hybrid_add_box ab s = Inr s'
                 \<and> st' = st\<lparr>box_storage := Hybrid s', active_box := None,
                            endpoints_placed := endpoints_placed st + 1\<rparr>
                 \<and> (ab \<in> set (to_add_cache s') \<or> ab \<in> set (boxes_table s')
                      \<or> name ab \<in> set (map name (to_delete_cache s)))"
    if "box_storage st = Hybrid s \<and> check_active_box_size d st ps = Inr st'" for s st'
  proof (cases "hybrid_add_box ab s")
    case (Inl e)
    from that have "box_storage st = Hybrid s" and "check_active_box_size d st ps = Inr st'"
      by simp_all
    with Inl show ?thesis by (simp add: step)
  next
    case (Inr s')
    from that have "box_storage st = Hybrid s" and "check_active_box_size d st ps = Inr st'"
      by simp_all
    with Inr have "st' = st\<lparr>box_storage := Hybrid s', active_box := None,
                            endpoints_placed := endpoints_placed st + 1\<rparr>"
      by (simp add: step)
    with Inr hybrid_add_box_holds[OF Inr] show ?thesis by blast
  qed
  from step next_step mem db hy show ?thesis by blast
qed

theorem retire_adds_active_box_to_storage_witness:
  "check_active_box_size (9, 1 / 2) example_engine_1 example_placements_1 =
     Inr (example_engine_1\<lparr>box_storage := InMemory [example_endpoint_1, example_box_1],
            active_box := None, endpoints_placed := 2\<rparr>)
   \<and> set [example_endpoint_1, example_box_1] = insert example_endpoint_1 (set [example_box_1])"
proof -
  have a: "active_box example_engine_1 = Some example_endpoint_1"
    by (simp add: example_defs)
  have b: "inverse_pow (active_box_first_detail_index example_engine_1) (gamma example_engine_1) = Inr 1"
    by (simp add: example_defs inverse_pow_gamma_one)
  have c: "fst (9 :: real, 1 / 2 :: real) + 1 >
      (if is_active_box_horizontal example_engine_1 then width example_endpoint_1
       else height example_endpoint_1)"
    by (simp add: example_defs width_def Detail_def)
  have s: "box_storage example_engine_1 = InMemory [example_box_1]"
    by (simp add: example_defs)
  have i: "(if example_endpoint_1 \<in> set [example_box_1] then [example_box_1]
            else sorted_insert example_endpoint_1 [example_box_1]) = [example_endpoint_1, example_box_1]"
    by (simp add: example_defs engine_defs)
  from retire_adds_active_box_to_storage[OF a b c, of example_placements_1] s
  have "check_active_box_size (9, 1 / 2) example_engine_1 example_placements_1 =
              Inr (example_engine_1\<lparr>box_storage :=
                         InMemory (if example_endpoint_1 \<in> set [example_box_1] then [example_box_1]
                                   else sorted_insert example_endpoint_1 [example_box_1]),
                      active_box := None, endpoints_placed := endpoints_placed example_engine_1 + 1\<rparr>)
        \<and> set (if example_endpoint_1 \<in> set [example_box_1] then [example_box_1]
                 else sorted_insert example_endpoint_1 [example_box_1])
            = insert example_endpoint_1 (set [example_box_1])"
    by blast
  then show ?thesis
    unfolding i by (simp add: example_defs)
qed

text \<open>
  The claim as stated (the storage is unchanged by the retirement) fails: after the first
  placement on a 10 by 10 sheet the storage holds \<open>B1\<close>; a detail of width 9 retires the
  active box \<open>E1\<close>, and the storage then holds \<open>E1\<close> and \<open>B1\<close>.
\<close>

theorem retire_leaves_storage_counterexample:
  "place_next (1, 1) example_engine [example_sheet] = Inr (example_engine_1, example_placements_1)
   \<and> active_box example_engine_1 = Some example_endpoint_1
   \<and> is_active_box_horizontal example_engine_1
   \<and> inverse_pow (active_box_first_detail_index example_engine_1) (gamma example_engine_1) = Inr 1
   \<and> width example_endpoint_1 < 9 + 1
   \<and> box_storage example_engine_1 = InMemory [example_box_1]
   \<and> check_active_box_size (9, 1 / 2) example_engine_1 example_placements_1 =
       Inr (example_engine_1\<lparr>box_storage := InMemory [example_endpoint_1, example_box_1],
              active_box := None, endpoints_placed := 2\<rparr>)
   \<and> InMemory [example_endpoint_1, example_box_1] \<noteq> InMemory [example_box_1]"
  by (simp add: example_defs engine_defs inverse_pow_gamma_one str_int_small)

section \<open>Verification: the cut of the active box\<close>

text \<open>
  Claim C5, as amended. Placing a detail \<open>(w, h)\<close> into the active box \<open>ab\<close>, with
  \<open>n\<close> the new \<open>last_placed_index\<close>, builds three rectangles: when the active box is
  horizontal, the placed detail \<open>D{n}\<close> from \<open>ab.bottom_left\<close> to
  \<open>(ab.bl.x + w, ab.bl.y + h)\<close>, the normal box \<open>B{n}\<close> from \<open>(ab.bl.x, ab.bl.y + h)\<close> to
  \<open>(ab.bl.x + w, ab.tr.y)\<close> and the endpoint from \<open>(ab.bl.x + w, ab.bl.y)\<close> to
  \<open>ab.top_right\<close>; when it is vertical, with \<open>dx = h\<close> and \<open>dy = w\<close>, the placed detail
  from \<open>(ab.tr.x - dx, ab.bl.y)\<close> to \<open>(ab.tr.x, ab.bl.y + dy)\<close>, the normal box from
  \<open>ab.bottom_left\<close> to \<open>(ab.tr.x - dx, ab.bl.y + dy)\<close> and the endpoint from
  \<open>(ab.bl.x, ab.bl.y + dy)\<close> to \<open>ab.top_right\<close>. The normal box is added to the storage
  and the endpoint becomes the active box. When \<open>update_placed_details\<close> is true (and
  the active box is in the list, so that \<open>remove\<close> returns) the active box leaves the
  list of placed details and the three rectangles are appended; when it is false the list
  is left as it is.
\<close>

theorem place_detail_cuts_active_box:
  assumes "active_box st = Some ab" and "n = last_placed_index st + 1"
  shows "(is_active_box_horizontal st \<longrightarrow>
            placed_detail_of st ab (w, h) n =
              Detail (bottom_left ab) (fst (bottom_left ab) + w, snd (bottom_left ab) + h)
                (''D'' @ str_int n) ''detail''
          \<and> normal_box_of st ab (w, h) n =
              Detail (fst (bottom_left ab), snd (bottom_left ab) + h)
                (fst (bottom_left ab) + w, snd (top_right ab))
                (''B'' @ str_int n) (get_normal_box_type st)
          \<and> endpoint_of st ab (w, h) =
              Detail (fst (bottom_left ab) + w, snd (bottom_left ab)) (top_right ab)
                (''E'' @ str_int (endpoints_placed st)) (get_endpoint_type st))
       \<and> (\<not> is_active_box_horizontal st \<longrightarrow>
            (let dx = h; dy = w in
             placed_detail_of st ab (w, h) n =
               Detail (fst (top_right ab) - dx, snd (bottom_left ab))
                 (fst (top_right ab), snd (bottom_left ab) + dy)
                 (''D'' @ str_int n) ''detail''
           \<and> normal_box_of st ab (w, h) n =
               Detail (bottom_left ab) (fst (top_right ab) - dx, snd (bottom_left ab) + dy)
                 (''B'' @ str_int n) (get_normal_box_type st)
           \<and> endpoint_of st ab (w, h) =
               Detail (fst (bottom_left ab), snd (bottom_left ab) + dy) (top_right ab)
                 (''E'' @ str_int (endpoints_placed st)) (get_endpoint_type st)))
       \<and> (update_placed_details st \<longrightarrow> ab \<in> set ps \<longrightarrow>
            place_detail_in_active_box (w, h) st ps =
              (case add_box (normal_box_of st ab (w, h) n) (box_storage st) of
                 Inl e \<Rightarrow>
                   Inl (e, remove1 ab ps @ [placed_detail_of st ab (w, h) n,
                          normal_box_of st ab (w, h) n, endpoint_of st ab (w, h)])
               | Inr storage \<Rightarrow>
                   Inr (st\<lparr>last_placed_index := n,
                           active_box := Some (endpoint_of st ab (w, h)),
                           box_storage := storage\<rparr>,
                        remove1 ab ps @ [placed_detail_of st ab (w, h) n,
                          normal_box_of st ab (w, h) n, endpoint_of st ab (w, h)])))
       \<and> (\<not> update_placed_details st \<longrightarrow>
            place_detail_in_active_box (w, h) st ps =
              (case add_box (normal_box_of st ab (w, h) n) (box_storage st) of
                 Inl e \<Rightarrow> Inl (e, ps)
               | Inr storage \<Rightarrow>
                   Inr (st\<lparr>last_placed_index := n,
                           active_box := Some (endpoint_of st ab (w, h)),
                           box_storage := storage\<rparr>, ps)))"
proof -
  have hor: "is_active_box_horizontal st \<Longrightarrow>
            placed_detail_of st ab (w, h) n =
              Detail (bottom_left ab) (fst (bottom_left ab) + w, snd (bottom_left ab) + h)
                (''D'' @ str_int n) ''detail''
          \<and> normal_box_of st ab (w, h) n =
              Detail (fst (bottom_left ab), snd (bottom_left ab) + h)
                (fst (bottom_left ab) + w, snd (top_right ab))
                (''B'' @ str_int n) (get_normal_box_type st)
          \<and> endpoint_of st ab (w, h) =
              Detail (fst (bottom_left ab) + w, snd (bottom_left ab)) (top_right ab)
                (''E'' @ str_int (endpoints_placed st)) (get_endpoint_type st)"
    by (simp add: placed_detail_of_def normal_box_of_def endpoint_of_def)
  have ver: "\<not> is_active_box_horizontal st \<Longrightarrow>
            (let dx = h; dy = w in
             placed_detail_of st ab (w, h) n =
               Detail (fst (top_right ab) - dx, snd (bottom_left ab))
                 (fst (top_right ab), snd (bottom_left ab) + dy)
                 (''D'' @ str_int n) ''detail''
           \<and> normal_box_of st ab (w, h) n =
               Detail (bottom_left ab) (fst (top_right ab) - dx, snd (bottom_left ab) + dy)
                 (''B'' @ str_int n) (get_normal_box_type st)
           \<and> endpoint_of st ab (w, h) =
               Detail (fst (bottom_left ab), snd (bottom_left ab) + dy) (top_right ab)
                 (''E'' @ str_int (endpoints_placed st)) (get_endpoint_type st))"
    by (simp add: placed_detail_of_def normal_box_of_def endpoint_of_def)
  have upd: "update_placed_details st \<Longrightarrow> ab \<in> set ps \<Longrightarrow>
            place_detail_in_active_box (w, h) st ps =
              (case add_box (normal_box_of st ab (w, h) n) (box_storage st) of
                 Inl e \<Rightarrow>
                   Inl (e, remove1 ab ps @ [placed_detail_of st ab (w, h) n,
                          normal_box_of st ab (w, h) n, endpoint_of st ab (w, h)])
               | Inr storage \<Rightarrow>
                   Inr (st\<lparr>last_placed_index := n,
                           active_box := Some (endpoint_of st ab (w, h)),
                           box_storage := storage\<rparr>,
                        remove1 ab ps @ [placed_detail_of st ab (w, h) n,
                          normal_box_of st ab (w, h) n, endpoint_of st ab (w, h)]))"
    using assms
    by (simp add: place_detail_in_active_box_def list_remove_def Let_def split: sum.splits)
  have quiet: "\<not> update_placed_details st \<Longrightarrow>
            place_detail_in_active_box (w, h) st ps =
              (case add_box (normal_box_of st ab (w, h) n) (box_storage st) of
                 Inl e \<Rightarrow> Inl (e, ps)
               | Inr storage \<Rightarrow>
                   Inr (st\<lparr>last_placed_index := n,
                           active_box := Some (endpoint_of st ab (w, h)),
                           box_storage := storage\<rparr>, ps))"
    using assms
    by (simp add: place_detail_in_active_box_def Let_def split: sum.splits)
  show ?thesis
    using hor ver upd quiet by blast
qed

theorem place_detail_cuts_active_box_witness:
  "place_detail_in_active_box (1, 1 / 2) example_engine_1 example_placements_1 =
     Inr (example_engine_2,
          [example_lrp_1, example_detail_1, example_box_1,
           Detail (1, 0) (2, 1 / 2) ''D2'' ''detail'',
           Detail (1, 1 / 2) (2, 2) ''B2'' ''normal_box_1'',
           Detail (2, 0) (10, 2) ''E1'' ''endpoint_1''])"
proof -
  have a: "active_box example_engine_1 = Some example_endpoint_1"
    by (simp add: example_defs)
  have n: "(2::int) = last_placed_index example_engine_1 + 1"
    by (simp add: example_defs)
  show ?thesis
    using place_detail_cuts_active_box[OF a n, of 1 "1 / 2" example_placements_1]
    by (simp add: example_defs example_engine_2_def engine_defs str_int_small min_size_def)
qed

text \<open>
  The claim as stated (every placement removes the active box from the list and appends
  the three pieces) fails when \<open>update_placed_details\<close> is false: the first detail is
  placed, \<open>last_placed_index\<close> goes from 0 to 1, and the list is still the sheet alone.
\<close>

theorem place_detail_updates_list_counterexample:
  "place_next (1, 1) (example_engine\<lparr>update_placed_details := False\<rparr>) [example_sheet] =
     Inr (example_engine_1\<lparr>update_placed_details := False\<rparr>, [example_sheet])
   \<and> last_placed_index (example_engine_1\<lparr>update_placed_details := False\<rparr>) = 1
   \<and> last_placed_index (example_engine\<lparr>update_placed_details := False\<rparr>) = 0"
  by (simp add: example_defs engine_defs inverse_pow_gamma_one str_int_small)

section \<open>Verification: the flag update\_placed\_details\<close>

lemma check_if_lrp_none_quiet:
  assumes "lrp st \<noteq> None \<or> take 1 ps2 = take 1 ps1"
  shows "check_if_lrp_none st ps1 = Inr st1 \<Longrightarrow>
           check_if_lrp_none (st\<lparr>update_placed_details := False\<rparr>) ps2 =
             Inr (st1\<lparr>update_placed_details := False\<rparr>)"
    and "check_if_lrp_none st ps1 = Inl (e, ps1') \<Longrightarrow>
           check_if_lrp_none (st\<lparr>update_placed_details := False\<rparr>) ps2 = Inl (e, ps2)"
  using assms by (auto simp: check_if_lrp_none_def split: if_splits list.splits)

lemma check_active_box_size_quiet:
  shows "check_active_box_size d st ps1 = Inr st1 \<Longrightarrow>
           check_active_box_size d (st\<lparr>update_placed_details := False\<rparr>) ps2 =
             Inr (st1\<lparr>update_placed_details := False\<rparr>)"
    and "check_active_box_size d st ps1 = Inl (e, ps1') \<Longrightarrow>
           check_active_box_size d (st\<lparr>update_placed_details := False\<rparr>) ps2 = Inl (e, ps2)"
  by (auto simp: check_active_box_size_def Let_def split: option.splits sum.splits if_splits)

lemma choose_active_box_from_box_quiet:
  shows "choose_active_box_from_box st ps1 = Inr st1 \<Longrightarrow>
           choose_active_box_from_box (st\<lparr>update_placed_details := False\<rparr>) ps2 =
             Inr (st1\<lparr>update_placed_details := False\<rparr>)"
    and "choose_active_box_from_box st ps1 = Inl (e, ps1') \<Longrightarrow>
           choose_active_box_from_box (st\<lparr>update_placed_details := False\<rparr>) ps2 = Inl (e, ps2)"
  by (auto simp: choose_active_box_from_box_def split: option.splits sum.splits prod.splits)

lemma cut_new_strip_quiet:
  shows "cut_new_strip d st ps1 = Inr (st1, ps1') \<Longrightarrow>
           cut_new_strip d (st\<lparr>update_placed_details := False\<rparr>) ps2 =
             Inr (st1\<lparr>update_placed_details := False\<rparr>, ps2)"
    and "cut_new_strip d st ps1 = Inl (e, ps1') \<Longrightarrow> e \<noteq> ValueError \<Longrightarrow>
           cut_new_strip d (st\<lparr>update_placed_details := False\<rparr>) ps2 = Inl (e, ps2)"
  by (auto simp: cut_new_strip_def Let_def list_remove_def split: option.splits sum.splits if_splits)

lemma choose_active_box_quiet:
  shows "choose_active_box d st ps1 = Inr (st1, ps1') \<Longrightarrow>
           choose_active_box d (st\<lparr>update_placed_details := False\<rparr>) ps2 =
             Inr (st1\<lparr>update_placed_details := False\<rparr>, ps2)"
    and "choose_active_box d st ps1 = Inl (e, ps1') \<Longrightarrow> e \<noteq> ValueError \<Longrightarrow>
           choose_active_box d (st\<lparr>update_placed_details := False\<rparr>) ps2 = Inl (e, ps2)"
proof -
  assume a: "choose_active_box d st ps1 = Inr (st1, ps1')"
  show "choose_active_box d (st\<lparr>update_placed_details := False\<rparr>) ps2 =
             Inr (st1\<lparr>update_placed_details := False\<rparr>, ps2)"
  proof (cases "active_box st = None")
    case False
    with a show ?thesis by (auto simp: choose_active_box_def)
  next
    case True
    let ?st1 = "st\<lparr>active_box_first_detail_index := last_placed_index st + 1\<rparr>"
    have eq: "st\<lparr>update_placed_details := False, active_box_first_detail_index := last_placed_index st + 1\<rparr>
       = ?st1\<lparr>update_placed_details := False\<rparr>" by simp
    from a True show ?thesis
      by (auto simp: choose_active_box_def Let_def eq
          choose_active_box_from_box_quiet(1)[of ?st1 ps1 _ ps2]
          cut_new_strip_quiet(1)[of d ?st1 ps1 _ _ ps2]
          simp del: slack_pack_algorithm.update_convs
          split: sum.splits if_splits)
  qed
next
  assume a: "choose_active_box d st ps1 = Inl (e, ps1')" and ne: "e \<noteq> ValueError"
  show "choose_active_box d (st\<lparr>update_placed_details := False\<rparr>) ps2 = Inl (e, ps2)"
  proof (cases "active_box st = None")
    case False
    with a show ?thesis by (auto simp: choose_active_box_def)
  next
    case True
    let ?st1 = "st\<lparr>active_box_first_detail_index := last_placed_index st + 1\<rparr>"
    have eq: "st\<lparr>update_placed_details := False, active_box_first_detail_index := last_placed_index st + 1\<rparr>
       = ?st1\<lparr>update_placed_details := False\<rparr>" by simp
    from a True ne show ?thesis
      by (auto simp: choose_active_box_def Let_def eq
          choose_active_box_from_box_quiet(2)[of ?st1 ps1 _ _ ps2]
          cut_new_strip_quiet(2)[of d ?st1 ps1 _ _ ps2]
          simp del: slack_pack_algorithm.update_convs
          split: sum.splits if_splits)
  qed
qed

lemma place_detail_in_active_box_quiet:
  shows "place_detail_in_active_box d st ps1 = Inr (st1, ps1') \<Longrightarrow>
           place_detail_in_active_box d (st\<lparr>update_placed_details := False\<rparr>) ps2 =
             Inr (st1\<lparr>update_placed_details := False\<rparr>, ps2)"
    and "place_detail_in_active_box d st ps1 = Inl (e, ps1') \<Longrightarrow> e \<noteq> ValueError \<Longrightarrow>
           place_detail_in_active_box d (st\<lparr>update_placed_details := False\<rparr>) ps2 = Inl (e, ps2)"
  by (auto simp: place_detail_in_active_box_def Let_def list_remove_def
      placed_detail_of_def normal_box_of_def endpoint_of_def get_normal_box_type_def get_endpoint_type_def
      split: option.splits sum.splits if_splits)

lemma check_steps_payload:
  "check_if_lrp_none st ps = Inl (e, ps') \<Longrightarrow> ps' = ps"
  "check_active_box_size d st ps = Inl (e, ps') \<Longrightarrow> ps' = ps"
  "choose_active_box_from_box st ps = Inl (e, ps') \<Longrightarrow> ps' = ps"
  by (auto simp: check_if_lrp_none_def check_active_box_size_def choose_active_box_from_box_def
      Let_def split: option.splits sum.splits if_splits list.splits prod.splits)

lemma cut_new_strip_payload:
  "cut_new_strip d st ps = Inl (e, ps') \<Longrightarrow> ps' = ps"
  by (auto simp: cut_new_strip_def Let_def split: option.splits sum.splits if_splits)

lemma choose_active_box_payload:
  "choose_active_box d st ps = Inl (e, ps') \<Longrightarrow> ps' = ps"
  by (auto simp: choose_active_box_def Let_def
      dest: check_steps_payload cut_new_strip_payload split: sum.splits if_splits)

lemma place_detail_in_active_box_quiet_payload:
  "\<not> update_placed_details st \<Longrightarrow> place_detail_in_active_box d st ps = Inl (e, ps') \<Longrightarrow> ps' = ps"
  by (auto simp: place_detail_in_active_box_def Let_def split: option.splits sum.splits if_splits)

lemma flag_kept:
  "check_if_lrp_none st ps = Inr st' \<Longrightarrow> update_placed_details st' = update_placed_details st"
  "check_active_box_size d st ps = Inr st' \<Longrightarrow> update_placed_details st' = update_placed_details st"
  "choose_active_box d st ps = Inr (st', ps') \<Longrightarrow> update_placed_details st' = update_placed_details st"
  "place_detail_in_active_box d st ps = Inr (st', ps') \<Longrightarrow> update_placed_details st' = update_placed_details st"
     apply (auto simp: check_if_lrp_none_def split: if_splits list.splits)[1]
    apply (auto simp: check_active_box_size_def Let_def split: option.splits sum.splits if_splits)[1]
   apply (auto simp: choose_active_box_def choose_active_box_from_box_def cut_new_strip_def Let_def
      split: option.splits sum.splits if_splits prod.splits)[1]
  apply (auto simp: place_detail_in_active_box_def Let_def split: option.splits sum.splits if_splits)[1]
  done

lemma place_next_Inr_iff:
  "place_next d st ps = Inr (st', ps') \<longleftrightarrow>
   (\<exists>st1 st2 st3 ps3. check_if_lrp_none st ps = Inr st1 \<and> check_active_box_size d st1 ps = Inr st2
      \<and> choose_active_box d st2 ps = Inr (st3, ps3) \<and> place_detail_in_active_box d st3 ps3 = Inr (st', ps'))"
  by (auto simp: place_next_def split: sum.splits)

lemma place_next_Inl_iff:
  "place_next d st ps = Inl x \<longleftrightarrow>
   (check_if_lrp_none st ps = Inl x
    \<or> (\<exists>st1. check_if_lrp_none st ps = Inr st1 \<and>
         (check_active_box_size d st1 ps = Inl x
          \<or> (\<exists>st2. check_active_box_size d st1 ps = Inr st2 \<and>
               (choose_active_box d st2 ps = Inl x
                \<or> (\<exists>st3 ps3. choose_active_box d st2 ps = Inr (st3, ps3)
                      \<and> place_detail_in_active_box d st3 ps3 = Inl x))))))"
  by (auto simp: place_next_def split: sum.splits)

lemma place_next_quiet_ok:
  assumes "lrp st \<noteq> None \<or> take 1 ps2 = take 1 ps1"
    and "place_next d st ps1 = Inr (st1, ps1')"
  shows "place_next d (st\<lparr>update_placed_details := False\<rparr>) ps2 =
           Inr (st1\<lparr>update_placed_details := False\<rparr>, ps2)"
proof -
  from assms(2) obtain a b c ps3 where
    1: "check_if_lrp_none st ps1 = Inr a" and
    2: "check_active_box_size d a ps1 = Inr b" and
    3: "choose_active_box d b ps1 = Inr (c, ps3)" and
    4: "place_detail_in_active_box d c ps3 = Inr (st1, ps1')"
    unfolding place_next_Inr_iff by blast
  note q1 = check_if_lrp_none_quiet(1)[OF assms(1) 1]
  note q2 = check_active_box_size_quiet(1)[OF 2, of ps2]
  note q3 = choose_active_box_quiet(1)[OF 3, of ps2]
  note q4 = place_detail_in_active_box_quiet(1)[OF 4, of ps2]
  show ?thesis
    by (simp add: place_next_def q1 q2 q3 q4)
qed

lemma place_next_quiet_err:
  assumes "lrp st \<noteq> None \<or> take 1 ps2 = take 1 ps1"
    and "place_next d st ps1 = Inl (e, ps1')" and "e \<noteq> ValueError"
  shows "place_next d (st\<lparr>update_placed_details := False\<rparr>) ps2 = Inl (e, ps2)"
proof (cases "check_if_lrp_none st ps1")
  case (Inl x)
  with assms(2) have "check_if_lrp_none st ps1 = Inl (e, ps1')"
    by (simp add: place_next_def)
  from check_if_lrp_none_quiet(2)[OF assms(1) this] show ?thesis
    by (simp add: place_next_def)
next
  case (Inr a)
  note q1 = check_if_lrp_none_quiet(1)[OF assms(1) Inr]
  show ?thesis
  proof (cases "check_active_box_size d a ps1")
    case (Inl x)
    with assms(2) Inr have "check_active_box_size d a ps1 = Inl (e, ps1')"
      by (simp add: place_next_def)
    from check_active_box_size_quiet(2)[OF this, of ps2] show ?thesis
      by (simp add: place_next_def q1)
  next
    case b: (Inr b)
    note q2 = check_active_box_size_quiet(1)[OF b, of ps2]
    show ?thesis
    proof (cases "choose_active_box d b ps1")
      case (Inl x)
      with assms(2) Inr b have "choose_active_box d b ps1 = Inl (e, ps1')"
        by (simp add: place_next_def)
      from choose_active_box_quiet(2)[OF this assms(3), of ps2] show ?thesis
        by (simp add: place_next_def q1 q2)
    next
      case c: (Inr y)
      obtain c ps3 where y: "y = (c, ps3)" by (cases y)
      note q3 = choose_active_box_quiet(1)[OF c[unfolded y], of ps2]
      from assms(2) Inr b c y have "place_detail_in_active_box d c ps3 = Inl (e, ps1')"
        by (simp add: place_next_def)
      from place_detail_in_active_box_quiet(2)[OF this assms(3), of ps2] show ?thesis
        by (simp add: place_next_def q1 q2 q3)
    qed
  qed
qed

lemma place_next_quiet_frame:
  assumes "\<not> update_placed_details st"
  shows "(case place_next d st ps of
            Inl (e, ps') \<Rightarrow> ps' = ps
          | Inr (st', ps') \<Rightarrow> ps' = ps \<and> \<not> update_placed_details st')"
proof -
  have st: "st\<lparr>update_placed_details := False\<rparr> = st"
    using assms by simp
  show ?thesis
  proof (cases "place_next d st ps")
    case (Inr y)
    obtain st' ps' where y: "y = (st', ps')" by (cases y)
    from place_next_quiet_ok[of st ps ps d st' ps'] Inr y st
    have "place_next d st ps = Inr (st'\<lparr>update_placed_details := False\<rparr>, ps)" by simp
    with Inr y have "ps' = ps" "st' = st'\<lparr>update_placed_details := False\<rparr>" by simp_all
    then have "ps' = ps \<and> \<not> update_placed_details st'"
      by (metis slack_pack_algorithm.select_convs(5) slack_pack_algorithm.surjective slack_pack_algorithm.update_convs(5))
    with Inr y show ?thesis by simp
  next
    case (Inl x)
    obtain e ps' where x: "x = (e, ps')" by (cases x)
    have "ps' = ps"
    proof (cases "e = ValueError")
      case False
      from place_next_quiet_err[of st ps ps d e ps'] Inl x st False
      have "place_next d st ps = Inl (e, ps)" by simp
      with Inl x show ?thesis by simp
    next
      case True
      from Inl x consider
          "check_if_lrp_none st ps = Inl (e, ps')"
        | a where "check_if_lrp_none st ps = Inr a" "check_active_box_size d a ps = Inl (e, ps')"
        | a b where "check_if_lrp_none st ps = Inr a" "check_active_box_size d a ps = Inr b"
            "choose_active_box d b ps = Inl (e, ps')"
        | a b c ps3 where "check_if_lrp_none st ps = Inr a" "check_active_box_size d a ps = Inr b"
            "choose_active_box d b ps = Inr (c, ps3)" "place_detail_in_active_box d c ps3 = Inl (e, ps')"
        unfolding place_next_Inl_iff by blast
      then show ?thesis
      proof cases
        case 1 then show ?thesis by (rule check_steps_payload(1))
      next
        case 2 then show ?thesis using check_steps_payload(2) by blast
      next
        case 3 then show ?thesis using choose_active_box_payload by blast
      next
        case 4
        have fa: "\<not> update_placed_details a" using flag_kept(1)[OF 4(1)] assms by simp
        have fb: "\<not> update_placed_details b" using flag_kept(2)[OF 4(2)] fa by simp
        have fc: "\<not> update_placed_details c" using flag_kept(3)[OF 4(3)] fb by simp
        have bq: "b\<lparr>update_placed_details := False\<rparr> = b" using fb by simp
        from choose_active_box_quiet(1)[OF 4(3), of ps] bq 4(3) have "ps3 = ps" by simp
        with place_detail_in_active_box_quiet_payload[OF fc 4(4)] show ?thesis by simp
      qed
    qed
    with Inl x show ?thesis by simp
  qed
qed

text \<open>
  Claim C8. A call of \<open>place_next\<close> on an engine whose \<open>update_placed_details\<close> is
  false leaves the list of placed details as it was, whether the call returns or raises.
  Compared with the same engine with the flag true, on the same detail (and, at the very
  first call, a list with the same first element, from which the LRP is taken): when the
  call with the flag true returns the engine \<open>st1\<close>, the call with the flag false returns
  \<open>st1\<close> with only the flag changed, so the LRP, the active box, the indices, the
  orientation, the endpoint counter, \<open>active_box_from\<close> and the storage are the same; and
  when the call with the flag true raises an exception other than the \<open>ValueError\<close> of
  \<open>list.remove\<close>, the call with the flag false raises the same.
\<close>

theorem quiet_engine_matches_updating_engine:
  assumes "lrp st \<noteq> None \<or> take 1 ps2 = take 1 ps1"
  shows "(case place_next d (st\<lparr>update_placed_details := False\<rparr>) ps2 of
            Inl (e, ps') \<Rightarrow> ps' = ps2
          | Inr (st', ps') \<Rightarrow> ps' = ps2 \<and> \<not> update_placed_details st')
       \<and> (\<forall>st1 ps1'. place_next d st ps1 = Inr (st1, ps1') \<longrightarrow>
             place_next d (st\<lparr>update_placed_details := False\<rparr>) ps2 =
               Inr (st1\<lparr>update_placed_details := False\<rparr>, ps2))
       \<and> (\<forall>e ps1'. place_next d st ps1 = Inl (e, ps1') \<longrightarrow> e \<noteq> ValueError \<longrightarrow>
             place_next d (st\<lparr>update_placed_details := False\<rparr>) ps2 = Inl (e, ps2))"
proof (intro conjI allI impI)
  show "case place_next d (st\<lparr>update_placed_details := False\<rparr>) ps2 of
            Inl (e, ps') \<Rightarrow> ps' = ps2
          | Inr (st', ps') \<Rightarrow> ps' = ps2 \<and> \<not> update_placed_details st'"
    by (rule place_next_quiet_frame) simp
next
  fix st1 ps1'
  assume "place_next d st ps1 = Inr (st1, ps1')"
  then show "place_next d (st\<lparr>update_placed_details := False\<rparr>) ps2 =
               Inr (st1\<lparr>update_placed_details := False\<rparr>, ps2)"
    by (rule place_next_quiet_ok[OF assms])
next
  fix e ps1'
  assume "place_next d st ps1 = Inl (e, ps1')" "e \<noteq> ValueError"
  then show "place_next d (st\<lparr>update_placed_details := False\<rparr>) ps2 = Inl (e, ps2)"
    by (rule place_next_quiet_err[OF assms])
qed

theorem quiet_engine_matches_updating_engine_witness:
  "place_next (1, 1 / 2) example_engine_1 example_placements_1 =
     Inr (example_engine_2,
          [example_lrp_1, example_detail_1, example_box_1,
           Detail (1, 0) (2, 1 / 2) ''D2'' ''detail'',
           Detail (1, 1 / 2) (2, 2) ''B2'' ''normal_box_1'',
           Detail (2, 0) (10, 2) ''E1'' ''endpoint_1''])
   \<and> place_next (1, 1 / 2) (example_engine_1\<lparr>update_placed_details := False\<rparr>) [example_sheet] =
       Inr (example_engine_2\<lparr>update_placed_details := False\<rparr>, [example_sheet])"
proof -
  have run: "place_next (1, 1 / 2) example_engine_1 example_placements_1 =
     Inr (example_engine_2,
          [example_lrp_1, example_detail_1, example_box_1,
           Detail (1, 0) (2, 1 / 2) ''D2'' ''detail'',
           Detail (1, 1 / 2) (2, 2) ''B2'' ''normal_box_1'',
           Detail (2, 0) (10, 2) ''E1'' ''endpoint_1''])"
    by (simp add: example_defs example_engine_2_def engine_defs inverse_pow_gamma_one
        str_int_small min_size_def)
  have pre: "lrp example_engine_1 \<noteq> None
      \<or> take 1 [example_sheet] = take 1 example_placements_1"
    by (simp add: example_defs)
  from quiet_engine_matches_updating_engine[OF pre, of "(1, 1 / 2)"] run
  show ?thesis by simp
qed

section \<open>Verification: the partition ranges\<close>

lemma collect_ranges_all_Inr:
  "(\<And>i. i \<in> set js \<Longrightarrow> f i = Inr (h i)) \<Longrightarrow> collect_ranges f js = Inr (map h js)"
  by (induction js) auto

lemma float_pow_positive: "0 < x \<Longrightarrow> float_pow (1 / x) g = Inr ((1 / x) powr g)"
  by (simp add: float_pow_def)

lemma partition_range_positive:
  assumes "1 \<le> n" "1 \<le> b" "0 \<le> i"
  shows "partition_range n g b p i = Inr (range_bounds n g b p i)"
proof -
  have "0 \<le> i * b" using assms by simp
  moreover have "0 \<le> (i + 1) * b" using assms by simp
  ultimately have pos: "0 < n + i * b" "0 < n + (i + 1) * b" using assms(1) by linarith+
  have r1: "0 < real_of_int (n + i * b)" using pos(1) by (simp only: of_int_0_less_iff)
  have r2: "0 < real_of_int (n + (i + 1) * b)" using pos(2) by (simp only: of_int_0_less_iff)
  have nz: "n + (i + 1) * b \<noteq> 0" "n + i * b \<noteq> 0" using pos by simp_all
  show ?thesis
    unfolding partition_range_def range_bounds_def Let_def
    by (simp only: float_pow_positive[OF r1] float_pow_positive[OF r2] nz if_False simp_thms
        sum.case split: if_splits) simp
qed

lemma create_partition_ranges_eq:
  assumes "1 \<le> n" "1 \<le> b"
  shows "create_partition_ranges n g mp b =
     Inr (map (range_bounds n g b (mp div b + 1)) [0 .. mp div b])"
proof -
  have "collect_ranges (partition_range n g b (mp div b + 1)) [0 .. mp div b] =
      Inr (map (range_bounds n g b (mp div b + 1)) [0 .. mp div b])"
    by (rule collect_ranges_all_Inr) (simp add: partition_range_positive[OF assms])
  then show ?thesis
    using assms by (simp add: create_partition_ranges_def Let_def)
qed

text \<open>
  Claim C7, as amended. For \<open>n\<^sub>0 \<ge> 1\<close>, \<open>\<gamma> > 0\<close>, \<open>max_placed \<ge> 1\<close> and
  \<open>boxes_in_partition = B \<ge> 1\<close>, \<open>_create_partition_ranges\<close> creates exactly
  \<open>P = \<lfloor>max_placed / B\<rfloor> + 1\<close> ranges; this is \<open>\<lceil>max_placed / B\<rceil>\<close> when \<open>B\<close> does not divide
  \<open>max_placed\<close> and one more when it does. Range \<open>i \<in> [0, P)\<close> is
  \<open>[(1/(n\<^sub>0 + (i+1) B))^\<gamma>, (1/(n\<^sub>0 + i B))^\<gamma>)\<close>, except that the upper bound of range 0 is 1
  and the lower bound of range \<open>P - 1\<close> is 0.
\<close>

theorem partition_ranges_of_storage:
  assumes "1 \<le> n" and "0 < g" and "1 \<le> mp" and "1 \<le> b"
  shows "\<exists>rgs. create_partition_ranges n g mp b = Inr rgs
           \<and> int (length rgs) = mp div b + 1
           \<and> mp div b + 1 = (if b dvd mp then \<lceil>of_int mp / of_int b :: real\<rceil> + 1
                              else \<lceil>of_int mp / of_int b :: real\<rceil>)
           \<and> (\<forall>i. 0 \<le> i \<and> i < mp div b + 1 \<longrightarrow>
                 rgs ! nat i =
                   (if i = mp div b then 0 else (1 / of_int (n + (i + 1) * b)) powr g,
                    if i = 0 then 1 else (1 / of_int (n + i * b)) powr g))"
proof -
  let ?rgs = "map (range_bounds n g b (mp div b + 1)) [0 .. mp div b]"
  have nonneg: "0 \<le> mp div b" using assms by (simp add: pos_imp_zdiv_nonneg_iff)
  have len: "int (length ?rgs) = mp div b + 1" using nonneg by simp
  have ceil: "mp div b + 1 = (if b dvd mp then \<lceil>of_int mp / of_int b :: real\<rceil> + 1
                              else \<lceil>of_int mp / of_int b :: real\<rceil>)"
  proof (cases "b dvd mp")
    case True
    then obtain k where k: "mp = b * k" by (auto simp: dvd_def)
    have "b \<noteq> 0" using assms by simp
    then show ?thesis using True k by simp
  next
    case False
    have bpos: "0 < b" using assms by simp
    have "\<lceil>of_int mp / of_int b :: real\<rceil> = mp div b + 1"
    proof (rule ceiling_unique)
      have "mp mod b \<noteq> 0" using False by (simp add: dvd_eq_mod_eq_0)
      moreover have "0 \<le> mp mod b" using bpos by simp
      ultimately have m: "0 < mp mod b" by linarith
      have eq: "mp = b * (mp div b) + mp mod b" by simp
      have "real_of_int (mp div b) * real_of_int b < real_of_int mp"
      proof -
        have "b * (mp div b) < mp" using m eq by linarith
        then have "real_of_int (b * (mp div b)) < real_of_int mp" by linarith
        then show ?thesis by (simp add: mult.commute)
      qed
      then show "real_of_int (mp div b + 1) - 1 < real_of_int mp / real_of_int b"
        using bpos by (simp add: pos_less_divide_eq)
      have "mp mod b < b" using bpos by simp
      moreover have "b * (mp div b + 1) = b * (mp div b) + b" by (simp add: algebra_simps)
      ultimately have "mp < b * (mp div b + 1)" using eq by linarith
      then have "real_of_int mp \<le> real_of_int (b * (mp div b + 1))" by linarith
      then have "real_of_int mp \<le> real_of_int (mp div b + 1) * real_of_int b"
        by (simp add: mult.commute)
      then show "real_of_int mp / real_of_int b \<le> real_of_int (mp div b + 1)"
        using bpos by (simp add: pos_divide_le_eq)
    qed
    with False show ?thesis by simp
  qed
  have nth: "?rgs ! nat i =
                   (if i = mp div b then 0 else (1 / of_int (n + (i + 1) * b)) powr g,
                    if i = 0 then 1 else (1 / of_int (n + i * b)) powr g)"
    if "0 \<le> i" "i < mp div b + 1" for i
  proof -
    have "nat i < length [0 .. mp div b]" using that by simp
    moreover have "[0 .. mp div b] ! nat i = i" using that by (simp add: nth_upto)
    ultimately show ?thesis by (simp add: range_bounds_def)
  qed
  show ?thesis
    using create_partition_ranges_eq[OF assms(1) assms(4), of g mp] len ceil nth by blast
qed

theorem partition_ranges_of_storage_witness:
  "create_partition_ranges 1 1 7 5 = Inr [(1 / 6, 1), (0, 1 / 6)]
   \<and> \<lceil>7 / 5 :: real\<rceil> = 2"
proof -
  from partition_ranges_of_storage[of 1 1 7 5]
  obtain rgs where r: "create_partition_ranges 1 1 7 5 = Inr rgs"
    and len: "int (length rgs) = 7 div 5 + 1"
    and nth: "\<forall>i. 0 \<le> i \<and> i < 7 div 5 + 1 \<longrightarrow>
                 rgs ! nat i =
                   (if i = 7 div 5 then 0 else (1 / of_int (1 + (i + 1) * 5)) powr 1,
                    if i = 0 then 1 else (1 / of_int (1 + i * 5)) powr 1)"
    by auto
  have l2: "length rgs = 2" using len by simp
  have e0: "rgs ! 0 = (1 / 6, 1)" using nth[rule_format, of 0] by simp
  have e1: "rgs ! 1 = (0, 1 / 6)" using nth[rule_format, of 1] by simp
  from l2 obtain x y where "rgs = [x, y]"
    by (cases rgs; cases "tl rgs") auto
  with e0 e1 have "rgs = [(1 / 6, 1), (0, 1 / 6)]" by simp
  moreover have "\<lceil>7 / 5 :: real\<rceil> = 2" by (simp add: ceiling_eq_iff)
  ultimately show ?thesis using r by simp
qed

text \<open>
  The claim as stated (\<open>P = \<lceil>max_placed / B\<rceil>\<close>) fails when \<open>B\<close> divides \<open>max_placed\<close>:
  for \<open>max_placed = 10\<close> and \<open>B = 5\<close> three ranges are created, and \<open>\<lceil>10 / 5\<rceil> = 2\<close>.
\<close>

theorem partition_count_is_ceiling_counterexample:
  "create_partition_ranges 1 1 10 5 = Inr [(1 / 6, 1), (1 / 11, 1 / 6), (0, 1 / 11)]
   \<and> length [(1 / 6, 1), (1 / 11, 1 / 6), (0, 1 / 11 :: real)] = 3
   \<and> \<lceil>10 / 5 :: real\<rceil> = 2"
proof -
  have u: "[0 .. 2::int] = [0, 1, 2]" by (simp add: upto.simps)
  show ?thesis by (simp add: create_partition_ranges_eq range_bounds_def u)
qed

section \<open>Verification: the storages when empty, and when the engine pops\<close>

lemma update_caches_error: "update_caches s = Inl e \<Longrightarrow> e = DatabaseError"
  by (auto simp: update_caches_def update_to_add_cache_def insert_rows_def update_max_cache_def
      split: sum.splits option.splits if_splits)

lemma hybrid_add_box_error: "hybrid_add_box d s = Inl e \<Longrightarrow> e = DatabaseError"
  by (auto simp: hybrid_add_box_def Let_def dest: update_caches_error split: if_splits)

lemma add_box_error: "add_box d s = Inl e \<Longrightarrow> e = DatabaseError"
  by (cases s) (auto dest: hybrid_add_box_error split: sum.splits)

lemma hybrid_pop_after_get:
  assumes "hybrid_get_max_box s = Some m"
  shows "hybrid_pop_max_box s \<noteq> Inl IndexError"
    and "hybrid_pop_max_box s = Inr (r, s') \<Longrightarrow> r = Some m"
proof -
  show "hybrid_pop_max_box s \<noteq> Inl IndexError"
    using assms
    by (cases "to_add_cache s"; cases "max_cache s")
       (auto simp: hybrid_get_max_box_def hybrid_pop_max_box_def first_or_none_def Let_def
          dest: update_caches_error split: if_splits sum.splits)
  show "hybrid_pop_max_box s = Inr (r, s') \<Longrightarrow> r = Some m"
    using assms
    by (cases "to_add_cache s"; cases "max_cache s")
       (auto simp: hybrid_get_max_box_def hybrid_pop_max_box_def first_or_none_def Let_def
          split: if_splits sum.splits)
qed

lemma pop_after_get:
  assumes "get_max_box s = Some m"
  shows "pop_max_box s \<noteq> Inl IndexError"
    and "pop_max_box s = Inr (r, s') \<Longrightarrow> r = Some m"
proof -
  show "pop_max_box s \<noteq> Inl IndexError"
    using assms hybrid_pop_after_get(1)
    by (cases s) (auto simp: in_memory_pop_max_box_def database_pop_max_box_def
        split: list.splits sum.splits)
  show "pop_max_box s = Inr (r, s') \<Longrightarrow> r = Some m"
    using assms hybrid_pop_after_get(2)
    by (cases s) (auto simp: in_memory_pop_max_box_def database_pop_max_box_def
        in_memory_get_max_box_def database_get_max_box_def first_or_none_def
        split: list.splits sum.splits)
qed

lemma inverse_pow_nonneg: "1 \<le> k \<Longrightarrow> inverse_pow k g = Inr x \<Longrightarrow> 0 \<le> x"
  by (auto simp: inverse_pow_def float_pow_def split: if_splits)

lemma cut_new_strip_no_index_error: "cut_new_strip d st ps \<noteq> Inl (IndexError, ps')"
  by (auto simp: cut_new_strip_def Let_def list_remove_def inverse_pow_def float_pow_def
      split: option.splits sum.splits if_splits)

text \<open>
  Claim C10. On an empty storage \<open>get_max_box\<close> returns \<open>None\<close> in the in-memory and
  in the hybrid variants; \<open>pop_max_box\<close> of the in-memory storage returns \<open>None\<close>, and
  \<open>pop_max_box\<close> of a hybrid storage whose two caches are empty raises \<open>IndexError\<close>.
  Under the engine's usage, that is, when \<open>_choose_active_box\<close> chooses a box for a detail
  of non-negative height at an index \<open>last_placed_index + 1\<close> of at least 1 (or, more
  generally, whenever the height plus the required gap \<open>g\<close> is greater than the value
  \<open>-1\<close> that stands for the empty storage), \<open>pop_max_box\<close> is called only when
  \<open>get_max_box\<close> returned a box whose smaller side is at least the height plus the gap;
  \<open>pop_max_box\<close> then does not raise \<open>IndexError\<close> and returns that box, and
  \<open>_choose_active_box\<close> does not raise \<open>IndexError\<close>.
\<close>

theorem pop_only_after_get_max_box:
  assumes "active_box st = None"
      and "inverse_pow (last_placed_index st + 1) (gamma st) = Inr g"
      and "(0 \<le> snd d \<and> 1 \<le> last_placed_index st + 1) \<or> - 1 < snd d + g"
  shows "get_max_box InMemoryBoxStorage = None
       \<and> pop_max_box InMemoryBoxStorage = Inr (None, InMemoryBoxStorage)
       \<and> get_max_box (Hybrid (HybridBoxStorage cs)) = None
       \<and> pop_max_box (Hybrid (HybridBoxStorage cs)) = Inl IndexError
       \<and> (to_add_cache h = [] \<and> max_cache h = [] \<longrightarrow>
            get_max_box (Hybrid h) = None \<and> pop_max_box (Hybrid h) = Inl IndexError)
       \<and> choose_active_box d st ps =
            (let st1 = st\<lparr>active_box_first_detail_index := last_placed_index st + 1\<rparr> in
             case get_max_box (box_storage st) of
               None \<Rightarrow> cut_new_strip d st1 ps
             | Some m \<Rightarrow>
                 if snd d + g \<le> min (width m) (height m) then
                   (case choose_active_box_from_box st1 ps of
                      Inl e \<Rightarrow> Inl e
                    | Inr st2 \<Rightarrow> Inr (st2, ps))
                 else cut_new_strip d st1 ps)
       \<and> (\<forall>m. get_max_box (box_storage st) = Some m \<longrightarrow>
              pop_max_box (box_storage st) \<noteq> Inl IndexError
              \<and> (\<forall>r s'. pop_max_box (box_storage st) = Inr (r, s') \<longrightarrow> r = Some m))
       \<and> (\<forall>ps'. choose_active_box d st ps \<noteq> Inl (IndexError, ps'))
       \<and> (1 \<le> last_placed_index st + 1 \<longrightarrow> 0 \<le> g)"
proof -
  let ?st1 = "st\<lparr>active_box_first_detail_index := last_placed_index st + 1\<rparr>"
  have above: "- 1 < snd d + g"
    using assms(3) inverse_pow_nonneg[OF _ assms(2)] by linarith
  have e1: "get_max_box InMemoryBoxStorage = None"
    by (simp add: InMemoryBoxStorage_def in_memory_get_max_box_def first_or_none_def)
  have e2: "pop_max_box InMemoryBoxStorage = Inr (None, InMemoryBoxStorage)"
    by (simp add: InMemoryBoxStorage_def in_memory_pop_max_box_def)
  have e5: "get_max_box (Hybrid h) = None \<and> pop_max_box (Hybrid h) = Inl IndexError"
    if "to_add_cache h = []" "max_cache h = []" for h
    using that by (simp add: hybrid_get_max_box_def hybrid_pop_max_box_def first_or_none_def)
  have e3: "get_max_box (Hybrid (HybridBoxStorage cs)) = None"
    and e4: "pop_max_box (Hybrid (HybridBoxStorage cs)) = Inl IndexError"
    using e5[of "HybridBoxStorage cs"] by (simp_all add: HybridBoxStorage_def)
  have ch: "choose_active_box d st ps =
            (let st1 = ?st1 in
             case get_max_box (box_storage st) of
               None \<Rightarrow> cut_new_strip d st1 ps
             | Some m \<Rightarrow>
                 if snd d + g \<le> min (width m) (height m) then
                   (case choose_active_box_from_box st1 ps of
                      Inl e \<Rightarrow> Inl e
                    | Inr st2 \<Rightarrow> Inr (st2, ps))
                 else cut_new_strip d st1 ps)"
    using assms(1,2) above by (simp add: choose_active_box_def Let_def split: option.splits)
  have pg: "pop_max_box (box_storage st) \<noteq> Inl IndexError
              \<and> (\<forall>r s'. pop_max_box (box_storage st) = Inr (r, s') \<longrightarrow> r = Some m)"
    if "get_max_box (box_storage st) = Some m" for m
    using pop_after_get[OF that] by blast
  have ni: "choose_active_box d st ps \<noteq> Inl (IndexError, ps')" for ps'
  proof (cases "get_max_box (box_storage st)")
    case None
    then show ?thesis using ch cut_new_strip_no_index_error by simp
  next
    case (Some m)
    have "choose_active_box_from_box ?st1 ps \<noteq> Inl (IndexError, ps')"
      using pg[OF Some]
      by (auto simp: choose_active_box_from_box_def split: sum.splits option.splits prod.splits)
    then show ?thesis
      using ch Some cut_new_strip_no_index_error
      by (auto simp: Let_def split: sum.splits if_splits)
  qed
  have nn: "1 \<le> last_placed_index st + 1 \<longrightarrow> 0 \<le> g"
    using inverse_pow_nonneg[OF _ assms(2)] by blast
  show ?thesis
    using e1 e2 e3 e4 e5 ch pg ni nn by blast
qed

theorem pop_only_after_get_max_box_witness:
  "choose_active_box (1, 1) (example_hybrid_engine\<lparr>lrp := Some example_sheet\<rparr>) [example_sheet] =
     cut_new_strip (1, 1)
       (example_hybrid_engine\<lparr>lrp := Some example_sheet, active_box_first_detail_index := 1\<rparr>)
       [example_sheet]
   \<and> get_max_box (box_storage example_hybrid_engine) = None"
proof -
  let ?st = "example_hybrid_engine\<lparr>lrp := Some example_sheet\<rparr>"
  have a: "active_box ?st = None"
    by (simp add: example_hybrid_engine_def SlackPackAlgorithm_def)
  have b: "inverse_pow (last_placed_index ?st + 1) (gamma ?st) = Inr 1"
    by (simp add: example_hybrid_engine_def SlackPackAlgorithm_def inverse_pow_gamma_one)
  have c: "(0 \<le> snd (1 :: real, 1 :: real) \<and> 1 \<le> last_placed_index ?st + 1)
      \<or> - 1 < snd (1 :: real, 1 :: real) + 1" by simp
  have g: "get_max_box (box_storage ?st) = None"
    by (simp add: example_hybrid_engine_def SlackPackAlgorithm_def HybridBoxStorage_def
        hybrid_get_max_box_def first_or_none_def)
  from pop_only_after_get_max_box[OF a b c, of 10 "HybridBoxStorage 10" "[example_sheet]"] g
  show ?thesis
    by (simp add: example_hybrid_engine_def SlackPackAlgorithm_def Let_def)
qed

text \<open>
  The value \<open>-1\<close> for the empty storage relies on sizes that are not negative: for a
  height of \<open>-3\<close> and gap 1 the sum \<open>-2\<close> is at most \<open>-1\<close>, and the engine would
  pop from the empty hybrid storage. No generator of the program produces such a detail.
\<close>

lemma negative_height_pops_empty_storage:
  "get_max_box (box_storage example_hybrid_engine) = None
   \<and> inverse_pow (last_placed_index example_hybrid_engine + 1) (gamma example_hybrid_engine) = Inr 1
   \<and> place_next (1, - 3) example_hybrid_engine [example_sheet] = Inl (IndexError, [example_sheet])
   \<and> pop_max_box (box_storage example_hybrid_engine) = Inl IndexError"
  by (simp add: example_hybrid_engine_def SlackPackAlgorithm_def HybridBoxStorage_def
      hybrid_get_max_box_def hybrid_pop_max_box_def first_or_none_def inverse_pow_gamma_one
      engine_defs example_sheet_def)

section \<open>Verification: the driver\<close>

lemma run_loop_done: "mp \<le> num_placed \<Longrightarrow> run_loop mp num_placed g st ps c = (ps, c)"
  by (subst run_loop.simps) (auto split: sum.splits)

lemma run_loop_calls:
  "snd (run_loop mp num_placed g st ps c) \<le> c + nat (mp - num_placed)"
proof (induction mp num_placed g st ps c rule: run_loop.induct)
  case (1 mp num_placed g st ps c)
  show ?case
  proof (cases "generator_next g")
    case (Inl e)
    then show ?thesis by (subst run_loop.simps) simp
  next
    case (Inr x)
    obtain d g' where x: "x = (d, g')" by (cases x)
    show ?thesis
    proof (cases "num_placed < mp")
      case False
      then show ?thesis using Inr x by (subst run_loop.simps) simp
    next
      case True
      show ?thesis
      proof (cases "place_next d st ps")
        case (Inl y)
        obtain e ps' where y: "y = (e, ps')" by (cases y)
        have "run_loop mp num_placed g st ps c = (ps', c + 1)"
          using Inr x True Inl y by (subst run_loop.simps) simp
        then show ?thesis using True by simp
      next
        case r: (Inr y)
        obtain st' ps' where y: "y = (st', ps')" by (cases y)
        have eq: "run_loop mp num_placed g st ps c = run_loop mp (num_placed + 1) g' st' ps' (c + 1)"
          using Inr x True r y by (subst run_loop.simps) simp
        have "snd (run_loop mp (num_placed + 1) g' st' ps' (c + 1)) \<le> c + 1 + nat (mp - (num_placed + 1))"
          using "1.IH"[OF Inr x[symmetric] True r y[symmetric]] by simp
        then show ?thesis using eq True by simp
      qed
    qed
  qed
qed

lemma run_loop_quiet:
  "\<not> update_placed_details st \<Longrightarrow> fst (run_loop mp num_placed g st ps c) = ps"
proof (induction mp num_placed g st ps c rule: run_loop.induct)
  case (1 mp num_placed g st ps c)
  show ?case
  proof (cases "generator_next g")
    case (Inl e)
    then show ?thesis by (subst run_loop.simps) simp
  next
    case (Inr x)
    obtain d g' where x: "x = (d, g')" by (cases x)
    show ?thesis
    proof (cases "num_placed < mp")
      case False
      then show ?thesis using Inr x by (subst run_loop.simps) simp
    next
      case True
      show ?thesis
      proof (cases "place_next d st ps")
        case (Inl y)
        obtain e ps' where y: "y = (e, ps')" by (cases y)
        have "ps' = ps" using place_next_quiet_frame[where st=st and d=d and ps=ps, OF "1.prems"] Inl y by simp
        moreover have "run_loop mp num_placed g st ps c = (ps', c + 1)"
          using Inr x True Inl y by (subst run_loop.simps) simp
        ultimately show ?thesis by simp
      next
        case r: (Inr y)
        obtain st' ps' where y: "y = (st', ps')" by (cases y)
        have f: "ps' = ps" "\<not> update_placed_details st'"
          using place_next_quiet_frame[where st=st and d=d and ps=ps, OF "1.prems"] r y by simp_all
        have eq: "run_loop mp num_placed g st ps c = run_loop mp (num_placed + 1) g' st' ps' (c + 1)"
          using Inr x True r y by (subst run_loop.simps) simp
        show ?thesis
          using "1.IH"[OF Inr x[symmetric] True r y[symmetric] f(2)] eq f(1) by simp
      qed
    qed
  qed
qed

lemma run_loop_raise:
  "generator_next g = Inr (d, g') \<Longrightarrow> num_placed < mp \<Longrightarrow> place_next d st ps = Inl (e, ps') \<Longrightarrow>
   run_loop mp num_placed g st ps c = (ps', c + 1)"
  by (subst run_loop.simps) simp

lemma run_loop_continue:
  "generator_next g = Inr (d, g') \<Longrightarrow> num_placed < mp \<Longrightarrow> place_next d st ps = Inr (st', ps') \<Longrightarrow>
   run_loop mp num_placed g st ps c = run_loop mp (num_placed + 1) g' st' ps' (c + 1)"
  by (subst run_loop.simps) simp

lemma first_call_cuts_one_stripe:
  assumes "get_max_box storage = None"
      and "inverse_pow n g = Inr gap"
      and "- 1 < h + gap"
      and "h + gap \<le> max (width sheet) (height sheet)"
      and "w + gap \<le> min (width sheet) (height sheet)"
  shows "place_next (w, h) (SlackPackAlgorithm g n mp storage True) [sheet] =
     (let horizontal = (width sheet \<le> height sheet);
          ab = Detail
                 (if horizontal then bottom_left sheet
                  else (fst (top_right sheet) - h - gap, snd (bottom_left sheet)))
                 (if horizontal then (fst (top_right sheet), snd (bottom_left sheet) + h + gap)
                  else top_right sheet)
                 (''E'' @ str_int 1) ''endpoint_1'';
          new_lrp = Detail
                 (if horizontal then (fst (bottom_left sheet), snd (bottom_left sheet) + h + gap)
                  else bottom_left sheet)
                 (if horizontal then top_right sheet
                  else (fst (top_right sheet) - h - gap, snd (top_right sheet)))
                 ''LRP'' ''lrp'';
          st1 = (SlackPackAlgorithm g n mp storage True)
                  \<lparr>lrp := Some new_lrp, active_box := Some ab,
                   active_box_first_detail_index := n,
                   is_active_box_horizontal := horizontal,
                   active_box_from := Some (detail_type sheet)\<rparr>;
          pieces = [new_lrp, placed_detail_of st1 ab (w, h) n, normal_box_of st1 ab (w, h) n,
                    endpoint_of st1 ab (w, h)]
      in case add_box (normal_box_of st1 ab (w, h) n) storage of
           Inl e \<Rightarrow> Inl (e, pieces)
         | Inr storage' \<Rightarrow>
             Inr (st1\<lparr>last_placed_index := n, active_box := Some (endpoint_of st1 ab (w, h)),
                     box_storage := storage'\<rparr>, pieces))"
proof -
  let ?st0 = "SlackPackAlgorithm g n mp storage True"
  have c1: "check_if_lrp_none ?st0 [sheet] = Inr (?st0\<lparr>lrp := Some sheet\<rparr>)"
    by (simp add: check_if_lrp_none_def SlackPackAlgorithm_def)
  have c2: "check_active_box_size (w, h) (?st0\<lparr>lrp := Some sheet\<rparr>) [sheet] =
      Inr (?st0\<lparr>lrp := Some sheet\<rparr>)"
    by (simp add: check_active_box_size_def SlackPackAlgorithm_def)
  have fits: "\<not> (h + gap > max (width sheet) (height sheet)
      \<or> w + gap > min (width sheet) (height sheet))"
    using assms(4,5) by linarith
  have nopop: "\<not> h + gap \<le> - 1" using assms(3) by simp
  let ?hor = "width sheet \<le> height sheet"
  let ?ab = "Detail
                 (if ?hor then bottom_left sheet
                  else (fst (top_right sheet) - h - gap, snd (bottom_left sheet)))
                 (if ?hor then (fst (top_right sheet), snd (bottom_left sheet) + h + gap)
                  else top_right sheet)
                 (''E'' @ str_int 1) ''endpoint_1''"
  let ?lrp = "Detail
                 (if ?hor then (fst (bottom_left sheet), snd (bottom_left sheet) + h + gap)
                  else bottom_left sheet)
                 (if ?hor then top_right sheet
                  else (fst (top_right sheet) - h - gap, snd (top_right sheet)))
                 ''LRP'' ''lrp''"
  let ?st1 = "?st0\<lparr>lrp := Some ?lrp, active_box := Some ?ab,
                   active_box_first_detail_index := n,
                   is_active_box_horizontal := ?hor,
                   active_box_from := Some (detail_type sheet)\<rparr>"
  have cut: "cut_new_strip (w, h)
       (?st0\<lparr>lrp := Some sheet, active_box_first_detail_index := n\<rparr>) [sheet] =
       Inr (?st1, [?ab, ?lrp])"
    unfolding cut_new_strip_def
    using assms(2) fits
    by (simp add: SlackPackAlgorithm_def Let_def list_remove_def)
  have c3: "choose_active_box (w, h) (?st0\<lparr>lrp := Some sheet\<rparr>) [sheet] =
       Inr (?st1, [?ab, ?lrp])"
    unfolding choose_active_box_def
    using assms(1,2) nopop cut
    by (simp add: SlackPackAlgorithm_def Let_def)
  have ne: "?ab \<noteq> ?lrp" by (simp add: Detail_def)
  have c4: "place_detail_in_active_box (w, h) ?st1 [?ab, ?lrp] =
     (let pieces = [?lrp, placed_detail_of ?st1 ?ab (w, h) n, normal_box_of ?st1 ?ab (w, h) n,
                    endpoint_of ?st1 ?ab (w, h)]
      in case add_box (normal_box_of ?st1 ?ab (w, h) n) storage of
           Inl e \<Rightarrow> Inl (e, pieces)
         | Inr storage' \<Rightarrow>
             Inr (?st1\<lparr>last_placed_index := n, active_box := Some (endpoint_of ?st1 ?ab (w, h)),
                     box_storage := storage'\<rparr>, pieces))"
    unfolding place_detail_in_active_box_def
    by (simp add: SlackPackAlgorithm_def Let_def list_remove_def split: sum.splits)
  show ?thesis
    by (simp only: place_next_def c1 c2 c3 c4 sum.case prod.case Let_def)
qed

text \<open>
  Claim C6, as amended. \<open>run_algorithm\<close> returns the placements list together with the
  number of calls of \<open>place_next\<close> it made. That number is at most \<open>max_placed\<close> (and 0
  for a negative bound). With \<open>max_placed \<le> 0\<close> the list is \<open>[sheet]\<close>; with
  \<open>update_placed_details\<close> false the list is \<open>[sheet]\<close> for every bound. When a call of
  \<open>place_next\<close> raises, the loop stops and the list as that call left it is returned,
  at any iteration and in particular at the first. With \<open>max_placed = 1\<close> the driver makes
  exactly one call and returns its list; for an engine with the flag true whose storage
  offers no box, and a sheet whose longer side is at least \<open>h + gap\<close> and whose shorter
  side is at least \<open>w + gap\<close>, that list is the one stripe cut and one placed detail:
  the new LRP, the detail \<open>D\<close>, the normal box \<open>B\<close> and the endpoint \<open>E\<close>, in this
  order. So the first element of the returned list is the sheet in the first two cases,
  and need not be the sheet once a stripe has been cut with the flag true.
\<close>

theorem run_algorithm_returns_placements:
  "int (snd (run_algorithm p)) \<le> max 0 (placer_max_placed p)
   \<and> (placer_max_placed p \<le> 0 \<longrightarrow> run_algorithm p = ([base_detail p], 0))
   \<and> (\<not> update_placed_details (algorithm p) \<longrightarrow> fst (run_algorithm p) = [base_detail p])
   \<and> (\<forall>mp k g st ps c d g' e ps'.
         generator_next g = Inr (d, g') \<and> k < mp \<and> place_next d st ps = Inl (e, ps') \<longrightarrow>
         run_loop mp k g st ps c = (ps', c + 1))
   \<and> (\<forall>d g' e ps'.
         generator_next (detail_generator p) = Inr (d, g') \<and> 0 < placer_max_placed p
         \<and> place_next d (algorithm p) [base_detail p] = Inl (e, ps') \<longrightarrow>
         run_algorithm p = (ps', 1))
   \<and> (\<forall>d g' st' ps'.
         generator_next (detail_generator p) = Inr (d, g') \<and> placer_max_placed p = 1
         \<and> place_next d (algorithm p) [base_detail p] = Inr (st', ps') \<longrightarrow>
         run_algorithm p = (ps', 1))
   \<and> (\<forall>w h g' g n mp storage gap.
         generator_next (detail_generator p) = Inr ((w, h), g') \<and> placer_max_placed p = 1
         \<and> algorithm p = SlackPackAlgorithm g n mp storage True
         \<and> get_max_box storage = None
         \<and> inverse_pow n g = Inr gap \<and> - 1 < h + gap
         \<and> h + gap \<le> max (width (base_detail p)) (height (base_detail p))
         \<and> w + gap \<le> min (width (base_detail p)) (height (base_detail p)) \<longrightarrow>
         run_algorithm p =
           (let sheet = base_detail p;
                horizontal = (width sheet \<le> height sheet);
                ab = Detail
                       (if horizontal then bottom_left sheet
                        else (fst (top_right sheet) - h - gap, snd (bottom_left sheet)))
                       (if horizontal
                        then (fst (top_right sheet), snd (bottom_left sheet) + h + gap)
                        else top_right sheet)
                       (''E'' @ str_int 1) ''endpoint_1'';
                new_lrp = Detail
                       (if horizontal
                        then (fst (bottom_left sheet), snd (bottom_left sheet) + h + gap)
                        else bottom_left sheet)
                       (if horizontal then top_right sheet
                        else (fst (top_right sheet) - h - gap, snd (top_right sheet)))
                       ''LRP'' ''lrp'';
                st1 = (SlackPackAlgorithm g n mp storage True)
                        \<lparr>lrp := Some new_lrp, active_box := Some ab,
                         active_box_first_detail_index := n,
                         is_active_box_horizontal := horizontal,
                         active_box_from := Some (detail_type sheet)\<rparr>
            in ([new_lrp, placed_detail_of st1 ab (w, h) n, normal_box_of st1 ab (w, h) n,
                 endpoint_of st1 ab (w, h)], 1)))"
proof (intro conjI allI impI)
  show "int (snd (run_algorithm p)) \<le> max 0 (placer_max_placed p)"
    using run_loop_calls[of "placer_max_placed p" 0 "detail_generator p" "algorithm p"
        "[base_detail p]" 0]
    by (simp add: run_algorithm_def)
next
  assume "placer_max_placed p \<le> 0"
  then show "run_algorithm p = ([base_detail p], 0)"
    by (simp add: run_algorithm_def run_loop_done)
next
  assume "\<not> update_placed_details (algorithm p)"
  then show "fst (run_algorithm p) = [base_detail p]"
    by (simp add: run_algorithm_def run_loop_quiet)
next
  fix mp k :: int and g st ps and c :: nat and d g' e ps'
  assume "generator_next g = Inr (d, g') \<and> k < mp \<and> place_next d st ps = Inl (e, ps')"
  then show "run_loop mp k g st ps c = (ps', c + 1)"
    using run_loop_raise by blast
next
  fix d g' e ps'
  assume "generator_next (detail_generator p) = Inr (d, g') \<and> 0 < placer_max_placed p
         \<and> place_next d (algorithm p) [base_detail p] = Inl (e, ps')"
  then show "run_algorithm p = (ps', 1)"
    by (simp add: run_algorithm_def run_loop_raise)
next
  fix d g' st' ps'
  assume a: "generator_next (detail_generator p) = Inr (d, g') \<and> placer_max_placed p = 1
         \<and> place_next d (algorithm p) [base_detail p] = Inr (st', ps')"
  then have "run_loop 1 0 (detail_generator p) (algorithm p) [base_detail p] 0 =
      run_loop 1 1 g' st' ps' 1"
    using run_loop_continue[of "detail_generator p" d g' 0 1 "algorithm p" "[base_detail p]" st' ps' 0]
    by simp
  then show "run_algorithm p = (ps', 1)"
    using a by (simp add: run_algorithm_def run_loop_done)
next
  fix w h g' g n mp storage gap
  assume a: "generator_next (detail_generator p) = Inr ((w, h), g') \<and> placer_max_placed p = 1
         \<and> algorithm p = SlackPackAlgorithm g n mp storage True
         \<and> get_max_box storage = None
         \<and> inverse_pow n g = Inr gap \<and> - 1 < h + gap
         \<and> h + gap \<le> max (width (base_detail p)) (height (base_detail p))
         \<and> w + gap \<le> min (width (base_detail p)) (height (base_detail p))"
  define sheet where "sheet = base_detail p"
  define horizontal where "horizontal = (width sheet \<le> height sheet)"
  define ab where "ab = Detail
                       (if horizontal then bottom_left sheet
                        else (fst (top_right sheet) - h - gap, snd (bottom_left sheet)))
                       (if horizontal
                        then (fst (top_right sheet), snd (bottom_left sheet) + h + gap)
                        else top_right sheet)
                       (''E'' @ str_int 1) ''endpoint_1''"
  define new_lrp where "new_lrp = Detail
                       (if horizontal
                        then (fst (bottom_left sheet), snd (bottom_left sheet) + h + gap)
                        else bottom_left sheet)
                       (if horizontal then top_right sheet
                        else (fst (top_right sheet) - h - gap, snd (top_right sheet)))
                       ''LRP'' ''lrp''"
  define st1 where "st1 = (SlackPackAlgorithm g n mp storage True)
                        \<lparr>lrp := Some new_lrp, active_box := Some ab,
                         active_box_first_detail_index := n,
                         is_active_box_horizontal := horizontal,
                         active_box_from := Some (detail_type sheet)\<rparr>"
  define pieces where "pieces = [new_lrp, placed_detail_of st1 ab (w, h) n,
      normal_box_of st1 ab (w, h) n, endpoint_of st1 ab (w, h)]"
  have pre: "get_max_box storage = None" "inverse_pow n g = Inr gap" "- 1 < h + gap"
    "h + gap \<le> max (width sheet) (height sheet)"
    "w + gap \<le> min (width sheet) (height sheet)"
    using a by (simp_all only: sheet_def)
  have fc: "place_next (w, h) (algorithm p) [base_detail p] =
      (case add_box (normal_box_of st1 ab (w, h) n) storage of
         Inl e \<Rightarrow> Inl (e, pieces)
       | Inr storage' \<Rightarrow>
           Inr (st1\<lparr>last_placed_index := n, active_box := Some (endpoint_of st1 ab (w, h)),
                   box_storage := storage'\<rparr>, pieces))"
    using first_call_cuts_one_stripe[OF pre, of mp] a
    by (simp only: Let_def pieces_def st1_def new_lrp_def ab_def horizontal_def sheet_def)
  have r: "run_algorithm p = (pieces, 1)"
  proof (cases "add_box (normal_box_of st1 ab (w, h) n) storage")
    case (Inl e)
    with fc have "place_next (w, h) (algorithm p) [base_detail p] = Inl (e, pieces)" by simp
    then show ?thesis
      using a by (simp add: run_algorithm_def run_loop_raise)
  next
    case (Inr storage')
    with fc have pn: "place_next (w, h) (algorithm p) [base_detail p] =
        Inr (st1\<lparr>last_placed_index := n, active_box := Some (endpoint_of st1 ab (w, h)),
                   box_storage := storage'\<rparr>, pieces)" by simp
    have "run_loop 1 0 (detail_generator p) (algorithm p) [base_detail p] 0 =
        run_loop 1 1 g' (st1\<lparr>last_placed_index := n,
          active_box := Some (endpoint_of st1 ab (w, h)), box_storage := storage'\<rparr>) pieces 1"
      using run_loop_continue[OF _ _ pn, of "detail_generator p" g' 0 1 0] a by simp
    then show ?thesis
      using a by (simp add: run_algorithm_def run_loop_done)
  qed
  show "run_algorithm p =
           (let sheet = base_detail p;
                horizontal = (width sheet \<le> height sheet);
                ab = Detail
                       (if horizontal then bottom_left sheet
                        else (fst (top_right sheet) - h - gap, snd (bottom_left sheet)))
                       (if horizontal
                        then (fst (top_right sheet), snd (bottom_left sheet) + h + gap)
                        else top_right sheet)
                       (''E'' @ str_int 1) ''endpoint_1'';
                new_lrp = Detail
                       (if horizontal
                        then (fst (bottom_left sheet), snd (bottom_left sheet) + h + gap)
                        else bottom_left sheet)
                       (if horizontal then top_right sheet
                        else (fst (top_right sheet) - h - gap, snd (top_right sheet)))
                       ''LRP'' ''lrp'';
                st1 = (SlackPackAlgorithm g n mp storage True)
                        \<lparr>lrp := Some new_lrp, active_box := Some ab,
                         active_box_first_detail_index := n,
                         is_active_box_horizontal := horizontal,
                         active_box_from := Some (detail_type sheet)\<rparr>
            in ([new_lrp, placed_detail_of st1 ab (w, h) n, normal_box_of st1 ab (w, h) n,
                 endpoint_of st1 ab (w, h)], 1))"
    unfolding r
    by (simp only: Let_def pieces_def st1_def new_lrp_def ab_def horizontal_def sheet_def)
qed

theorem run_algorithm_returns_placements_witness:
  "run_algorithm example_placer = (example_placements_1, 1)
   \<and> run_algorithm (example_placer\<lparr>placer_max_placed := 0\<rparr>) = ([example_sheet], 0)"
proof -
  have g: "generator_next (detail_generator example_placer) =
      Inr ((1, 1), Square \<lparr>sq_n0 = 1, sq_denominator = 2\<rparr>)"
    by (simp add: example_placer_def HarmonicSquareDetailGenerator_def square_next_def)
  have pn: "place_next (1, 1) (algorithm example_placer) [base_detail example_placer] =
      Inr (example_engine_1, example_placements_1)"
    by (simp add: example_placer_def example_defs engine_defs inverse_pow_gamma_one str_int_small)
  have m: "placer_max_placed example_placer = 1" by (simp add: example_placer_def)
  have z: "placer_max_placed (example_placer\<lparr>placer_max_placed := 0\<rparr>) \<le> 0" by simp
  from run_algorithm_returns_placements[of example_placer] g pn m
  have 1: "run_algorithm example_placer = (example_placements_1, 1)" by blast
  from run_algorithm_returns_placements[of "example_placer\<lparr>placer_max_placed := 0\<rparr>"] z
  have 2: "run_algorithm (example_placer\<lparr>placer_max_placed := 0\<rparr>) = ([example_sheet], 0)"
    by (simp add: example_placer_def)
  from 1 2 show ?thesis by simp
qed

text \<open>
  The first element of the returned list is not always the sheet: the stripe cut removes
  the sheet from the list and appends the stripe and the new LRP. For the 10 by 10 sheet
  and one square of side 1 the returned list starts with the new LRP and does not contain
  the sheet.
\<close>

theorem first_element_is_sheet_counterexample:
  "fst (run_algorithm example_placer) = example_placements_1
   \<and> hd example_placements_1 = example_lrp_1
   \<and> base_detail example_placer = example_sheet
   \<and> example_lrp_1 \<noteq> example_sheet
   \<and> example_sheet \<notin> set example_placements_1"
proof -
  have g: "generator_next (detail_generator example_placer) =
      Inr ((1, 1), Square \<lparr>sq_n0 = 1, sq_denominator = 2\<rparr>)"
    by (simp add: example_placer_def HarmonicSquareDetailGenerator_def square_next_def)
  have pn: "place_next (1, 1) (algorithm example_placer) [base_detail example_placer] =
      Inr (example_engine_1, example_placements_1)"
    by (simp add: example_placer_def example_defs engine_defs inverse_pow_gamma_one str_int_small)
  have "run_loop 1 0 (detail_generator example_placer) (algorithm example_placer)
      [base_detail example_placer] 0 =
      run_loop 1 1 (Square \<lparr>sq_n0 = 1, sq_denominator = 2\<rparr>) example_engine_1 example_placements_1 1"
    using run_loop_continue[OF g _ pn, of 0 1 0] by simp
  then have "run_algorithm example_placer = (example_placements_1, 1)"
    by (simp add: run_algorithm_def run_loop_done example_placer_def)
  then show ?thesis
    by (simp add: example_placer_def example_defs Detail_def)
qed

section \<open>Verification: the placements list as a partition of the sheet\<close>


























end
